theory Spec2Isabelle
  imports Main "HOL-Library.Word"
begin

section \<open>The application-layer protocol of firmware/app\_layer\_v1/protocol.c\<close>

text \<open>
  The file protocol.c holds three things: the incremental decoder
  \<open>AppProtocolHandleIncoming\<close>, the dispatcher \<open>MessageDone\<close> and the transmit pump
  \<open>AppProtocolTasks\<close>. Its header protocol.h (the message structs, the message type
  enumeration, \<open>IOIO_MAGIC\<close>), board.h (\<open>NUM_PINS\<close>, \<open>NUM_PWMS\<close>, \<open>NUM_UARTS\<close>) and
  byte\_queue.h are not among the sources. What they declare enters the model as the
  record \<open>header\<close>, a parameter of every function that depends on it.
\<close>

type_synonym byte = "8 word"

subsection \<open>What the missing headers declare\<close>

text \<open>The argument structs whose \<open>sizeof\<close> fills the two size tables.\<close>

datatype args_struct =
    HARD_RESET_ARGS | SOFT_RESET_ARGS | SET_PIN_DIGITAL_OUT_ARGS
  | SET_DIGITAL_OUT_LEVEL_ARGS | SET_PIN_DIGITAL_IN_ARGS | SET_CHANGE_NOTIFY_ARGS
  | REGISTER_PERIODIC_DIGITAL_SAMPLING_ARGS | RESERVED_ARGS | SET_PIN_PWM_ARGS
  | SET_PWM_DUTY_CYCLE_ARGS | SET_PWM_PERIOD_ARGS | SET_PIN_ANALOG_IN_ARGS
  | UART_DATA_ARGS | UART_CONFIG_ARGS | SET_PIN_UART_RX_ARGS | SET_PIN_UART_TX_ARGS
  | ESTABLISH_CONNECTION_ARGS | REPORT_DIGITAL_IN_STATUS_ARGS
  | REPORT_ANALOG_IN_FORMAT_ARGS | REPORT_ANALOG_IN_STATUS_ARGS | UART_REPORT_TX_STATUS

text \<open>The fields of \<open>rx_msg.args\<close> that \<open>MessageDone\<close> and \<open>IncomingVarArgSize\<close> read.\<close>

datatype field =
    hard_reset_magic
  | set_pin_digital_out_pin | set_pin_digital_out_value | set_pin_digital_out_open_drain
  | set_digital_out_level_pin | set_digital_out_level_value
  | set_pin_digital_in_pin | set_pin_digital_in_pull
  | set_change_notify_pin | set_change_notify_cn
  | set_pin_pwm_pin | set_pin_pwm_pwm_num
  | set_pwm_duty_cycle_pwm_num | set_pwm_duty_cycle_dc | set_pwm_duty_cycle_fraction
  | set_pwm_period_pwm_num | set_pwm_period_period | set_pwm_period_scale256
  | set_pin_analog_in_pin
  | uart_data_uart_num | uart_data_size
  | uart_config_uart_num | uart_config_rate | uart_config_speed4x
  | uart_config_two_stop_bits | uart_config_parity
  | set_pin_uart_rx_pin | set_pin_uart_rx_uart_num | set_pin_uart_rx_enable
  | set_pin_uart_tx_pin | set_pin_uart_tx_uart_num | set_pin_uart_tx_enable

text \<open>
  \<open>sizeof\<close> is the size of an argument struct; \<open>args_field f m\<close> is the value the
  compiler reads for the field \<open>f\<close> from the raw bytes \<open>m\<close> of an \<open>INCOMING_MESSAGE\<close>;
  \<open>uart_data_data\<close> is the offset of \<open>args.uart_data.data\<close> in that struct;
  \<open>establish_connection_msg\<close> gives the raw bytes of an \<open>OUTGOING_MESSAGE\<close> of type
  \<open>ESTABLISH_CONNECTION\<close> whose four fields hold the given values.
\<close>

record header =
  sizeof :: "args_struct \<Rightarrow> nat"
  args_field :: "field \<Rightarrow> byte list \<Rightarrow> nat"
  uart_data_data :: nat
  IOIO_MAGIC :: nat
  NUM_PINS :: nat
  NUM_PWMS :: nat
  NUM_UARTS :: nat
  establish_connection_msg :: "nat \<Rightarrow> nat \<Rightarrow> nat \<Rightarrow> nat \<Rightarrow> byte list"

text \<open>
  Modelled from the spec: the enumeration \<open>MessageType\<close> of protocol.h is missing. The
  spec gives it 16 values, and both tables of protocol.c have 16 initialisers and are
  "indexed by message type enum", so a type's value is the position of its struct in
  the tables (lines 19-59).
\<close>

definition MESSAGE_TYPE_LIMIT :: nat where "MESSAGE_TYPE_LIMIT = 16"

definition HARD_RESET :: byte where "HARD_RESET = 0"
definition ESTABLISH_CONNECTION :: byte where "ESTABLISH_CONNECTION = 0"
definition SOFT_RESET :: byte where "SOFT_RESET = 1"
definition SET_PIN_DIGITAL_OUT :: byte where "SET_PIN_DIGITAL_OUT = 2"
definition SET_DIGITAL_OUT_LEVEL :: byte where "SET_DIGITAL_OUT_LEVEL = 3"
definition SET_PIN_DIGITAL_IN :: byte where "SET_PIN_DIGITAL_IN = 4"
definition SET_CHANGE_NOTIFY :: byte where "SET_CHANGE_NOTIFY = 5"
definition REGISTER_PERIODIC_DIGITAL_SAMPLING :: byte where
  "REGISTER_PERIODIC_DIGITAL_SAMPLING = 6"
definition RESERVED :: byte where "RESERVED = 7"
definition SET_PIN_PWM :: byte where "SET_PIN_PWM = 8"
definition SET_PWM_DUTY_CYCLE :: byte where "SET_PWM_DUTY_CYCLE = 9"
definition SET_PWM_PERIOD :: byte where "SET_PWM_PERIOD = 10"
definition SET_PIN_ANALOG_IN :: byte where "SET_PIN_ANALOG_IN = 11"
definition UART_DATA :: byte where "UART_DATA = 12"
definition UART_CONFIG :: byte where "UART_CONFIG = 13"
definition SET_PIN_UART_RX :: byte where "SET_PIN_UART_RX = 14"
definition SET_PIN_UART_TX :: byte where "SET_PIN_UART_TX = 15"

definition FIRMWARE_ID :: nat where "FIRMWARE_ID = 1"

subsection \<open>Outcomes the C text leaves undefined\<close>

text \<open>
  A read past the end of a table or of a message struct, a \<open>memcpy\<close> past the end
  of \<open>rx_msg\<close> and a queue operation beyond what the queue holds have no defined
  result. The model stops there with a \<open>fault\<close>; every function that can reach one
  returns \<open>fault + result\<close>.
\<close>

datatype fault =
  TableIndexOutOfRange | RxMsgOverrun | ReadPastObject | TxQueueOverflow | TxQueueUnderflow

definition and_then :: "fault + 'a \<Rightarrow> ('a \<Rightarrow> fault + 'b) \<Rightarrow> fault + 'b" where
  "and_then r k = (case r of Inl f \<Rightarrow> Inl f | Inr x \<Rightarrow> k x)"

subsection \<open>The size tables (lines 19-59)\<close>

text \<open>The tables are \<open>const BYTE\<close> arrays: each entry is the \<open>sizeof\<close> value as a byte.\<close>

definition incoming_arg_size :: "header \<Rightarrow> nat list" where
  "incoming_arg_size H = map (\<lambda>a. sizeof H a mod 256)
     [HARD_RESET_ARGS, SOFT_RESET_ARGS, SET_PIN_DIGITAL_OUT_ARGS,
      SET_DIGITAL_OUT_LEVEL_ARGS, SET_PIN_DIGITAL_IN_ARGS, SET_CHANGE_NOTIFY_ARGS,
      REGISTER_PERIODIC_DIGITAL_SAMPLING_ARGS, RESERVED_ARGS, SET_PIN_PWM_ARGS,
      SET_PWM_DUTY_CYCLE_ARGS, SET_PWM_PERIOD_ARGS, SET_PIN_ANALOG_IN_ARGS,
      UART_DATA_ARGS, UART_CONFIG_ARGS, SET_PIN_UART_RX_ARGS, SET_PIN_UART_TX_ARGS]"

definition outgoing_arg_size :: "header \<Rightarrow> nat list" where
  "outgoing_arg_size H = map (\<lambda>a. sizeof H a mod 256)
     [ESTABLISH_CONNECTION_ARGS, SOFT_RESET_ARGS, SET_PIN_DIGITAL_OUT_ARGS,
      REPORT_DIGITAL_IN_STATUS_ARGS, SET_PIN_DIGITAL_IN_ARGS, SET_CHANGE_NOTIFY_ARGS,
      REGISTER_PERIODIC_DIGITAL_SAMPLING_ARGS, RESERVED_ARGS, REPORT_ANALOG_IN_FORMAT_ARGS,
      REPORT_ANALOG_IN_STATUS_ARGS, UART_REPORT_TX_STATUS, SET_PIN_ANALOG_IN_ARGS,
      UART_DATA_ARGS, UART_CONFIG_ARGS, SET_PIN_UART_RX_ARGS, SET_PIN_UART_TX_ARGS]"

text \<open>\<open>table[i]\<close> for a table of \<open>MESSAGE_TYPE_LIMIT\<close> entries.\<close>

definition table_at :: "nat list \<Rightarrow> byte \<Rightarrow> fault + nat" where
  "table_at tab i =
     (if unat i < MESSAGE_TYPE_LIMIT then Inr (tab ! unat i) else Inl TableIndexOutOfRange)"

subsection \<open>The outgoing queue\<close>

text \<open>
  Modelled from the spec: byte\_queue.h is missing. The spec describes a bounded byte
  ring buffer, a FIFO whose resident bytes never exceed its capacity, with no overflow
  policy in the source; removal of n bytes from the front; and a peek that yields the
  contiguous span at the head without removing it. \<open>contents\<close> are the resident bytes
  in FIFO order and \<open>read_cursor\<close> is the position of the head in the ring, so the
  contiguous span ends where the ring wraps.
\<close>

record byte_queue =
  capacity :: nat
  read_cursor :: nat
  contents :: "byte list"

definition ByteQueueClear :: "byte_queue \<Rightarrow> byte_queue" where
  "ByteQueueClear q = q\<lparr>read_cursor := 0, contents := []\<rparr>"

definition ByteQueuePushBuffer :: "byte_queue \<Rightarrow> byte list \<Rightarrow> fault + byte_queue" where
  "ByteQueuePushBuffer q bs =
     (if length (contents q) + length bs \<le> capacity q
      then Inr (q\<lparr>contents := contents q @ bs\<rparr>)
      else Inl TxQueueOverflow)"

definition ByteQueuePull :: "byte_queue \<Rightarrow> nat \<Rightarrow> fault + byte_queue" where
  "ByteQueuePull q n =
     (if n \<le> length (contents q)
      then Inr (q\<lparr>read_cursor := (read_cursor q + n) mod capacity q,
                  contents := drop n (contents q)\<rparr>)
      else Inl TxQueueUnderflow)"

definition ByteQueuePeek :: "byte_queue \<Rightarrow> byte list" where
  "ByteQueuePeek q = take (capacity q - read_cursor q) (contents q)"

subsection \<open>Calls on collaborators and the program state\<close>

text \<open>
  The hardware drivers, the channel and the logger are outside protocol.c. The model
  records each call with its arguments, in program order, in \<open>trace\<close>. A push on
  \<open>tx_queue\<close> changes the queue and is recorded as well, which fixes its order among
  the calls (\<open>ReportDigitalInStatus\<close> and \<open>UARTReportTxStatus\<close> send their reports
  from outside this file). \<open>HardReset\<close> is recorded like every other call and the
  function goes on to its \<open>break\<close>, as the C text does; that the device restarts is
  the driver's matter. An argument that is a pointer is recorded as the bytes it
  points to. \<open>ByteQueueLock\<close> and \<open>ByteQueueUnlock\<close> guard against interrupts and
  have no sequential effect.
\<close>

datatype call =
    HardReset
  | SoftReset
  | SetPinDigitalOut nat nat nat
  | SetDigitalOutLevel nat nat
  | SetPinDigitalIn nat nat
  | SetChangeNotify nat nat
  | ReportDigitalInStatus nat
  | SetPinPwm nat nat
  | SetPwmDutyCycle nat nat nat
  | SetPwmPeriod nat nat nat
  | SetPinAnalogIn nat
  | UARTTransmit nat "byte list" nat
  | UARTConfig nat nat nat nat nat
  | UARTReportTxStatus nat
  | SetPinUartRx nat nat nat
  | SetPinUartTx nat nat nat
  | UARTTasks
  | ADBWrite "byte list" nat
  | PushBuffer "byte list"
  | log_printf string

datatype RX_MESSAGE_STATE = WAIT_TYPE | WAIT_ARGS | WAIT_VAR_ARGS

text \<open>
  The statics of protocol.c. The three \<open>int\<close> variables only ever hold 0, 1, a table
  entry, a peeked size, or sums and differences of these that stay between 0 and 1024,
  so they are natural numbers here. \<open>rx_msg\<close> is the struct as raw bytes (the decoder
  fills it with \<open>memcpy\<close>); its length is \<open>sizeof(INCOMING_MESSAGE)\<close>. \<open>dispatched\<close> is
  not in the C: it lists the contents of \<open>rx_msg\<close> at each call of \<open>MessageDone\<close>.
\<close>

record state =
  tx_queue :: byte_queue
  bytes_transmitted :: nat
  rx_msg :: "byte list"
  rx_buffer_cursor :: nat
  rx_message_remaining :: nat
  rx_message_state :: RX_MESSAGE_STATE
  trace :: "call list"
  dispatched :: "byte list list"

definition call :: "call \<Rightarrow> state \<Rightarrow> state" where
  "call c s = s\<lparr>trace := trace s @ [c]\<rparr>"

text \<open>
  Modelled from the spec: \<open>type\<close> is the first byte of a message in either direction
  ("type: 1 byte followed by the fixed-size argument block").
\<close>

definition msg_type :: "byte list \<Rightarrow> byte" where
  "msg_type m = (case m of [] \<Rightarrow> 0 | t # _ \<Rightarrow> t)"

subsection \<open>Message lengths (lines 75-88)\<close>

text \<open>Both functions return \<open>BYTE\<close>: the sum is computed as an \<open>int\<close> and cut to 8 bits.\<close>

definition OutgoingMessageLength :: "header \<Rightarrow> byte list \<Rightarrow> fault + nat" where
  "OutgoingMessageLength H msg =
     and_then (table_at (outgoing_arg_size H) (msg_type msg)) (\<lambda>n. Inr ((1 + n) mod 256))"

definition IncomingVarArgSize :: "header \<Rightarrow> byte list \<Rightarrow> nat" where
  "IncomingVarArgSize H msg =
     (if msg_type msg = UART_DATA then (args_field H uart_data_size msg + 1) mod 256 else 0)"

subsection \<open>Sending (lines 90-120, 142-144)\<close>

text \<open>The \<open>len\<close> bytes that a callee reads at a pointer to an object of the bytes \<open>obj\<close>.\<close>

definition bytes_at :: "byte list \<Rightarrow> nat \<Rightarrow> fault + byte list" where
  "bytes_at obj len = (if len \<le> length obj then Inr (take len obj) else Inl ReadPastObject)"

definition AppProtocolSendMessage :: "header \<Rightarrow> byte list \<Rightarrow> state \<Rightarrow> fault + state" where
  "AppProtocolSendMessage H msg s =
     and_then (OutgoingMessageLength H msg) (\<lambda>n.
     and_then (bytes_at msg n) (\<lambda>bs.
     and_then (ByteQueuePushBuffer (tx_queue s) bs) (\<lambda>q.
       Inr (call (PushBuffer bs) (s\<lparr>tx_queue := q\<rparr>)))))"

definition AppProtocolSendMessageWithVarArg ::
    "header \<Rightarrow> byte list \<Rightarrow> byte list \<Rightarrow> nat \<Rightarrow> state \<Rightarrow> fault + state" where
  "AppProtocolSendMessageWithVarArg H msg data sz s =
     and_then (OutgoingMessageLength H msg) (\<lambda>n.
     and_then (bytes_at msg n) (\<lambda>bs.
     and_then (ByteQueuePushBuffer (tx_queue s) bs) (\<lambda>q.
     and_then (bytes_at data sz) (\<lambda>ds.
     and_then (ByteQueuePushBuffer q ds) (\<lambda>q'.
       Inr (call (PushBuffer ds) (call (PushBuffer bs) (s\<lparr>tx_queue := q'\<rparr>))))))))"

definition AppProtocolInit :: "header \<Rightarrow> state \<Rightarrow> fault + state" where
  "AppProtocolInit H s =
     AppProtocolSendMessage H
       (establish_connection_msg H (IOIO_MAGIC H) 0 1 FIRMWARE_ID)
       (s\<lparr>bytes_transmitted := 0, rx_buffer_cursor := 0, rx_message_remaining := 1,
          rx_message_state := WAIT_TYPE, tx_queue := ByteQueueClear (tx_queue s)\<rparr>)"

definition Echo :: "header \<Rightarrow> state \<Rightarrow> fault + state" where
  "Echo H s = AppProtocolSendMessage H (rx_msg s) s"

subsection \<open>The transmit pump (lines 122-140)\<close>

text \<open>\<open>ready\<close> is what \<open>ADBChannelReady(h)\<close> answers on this tick.\<close>

definition AppProtocolTasks :: "bool \<Rightarrow> state \<Rightarrow> fault + state" where
  "AppProtocolTasks ready s0 =
     (let s = call UARTTasks s0 in
      if ready then
        and_then
          (if bytes_transmitted s \<noteq> 0
           then and_then (ByteQueuePull (tx_queue s) (bytes_transmitted s))
                  (\<lambda>q. Inr (s\<lparr>tx_queue := q, bytes_transmitted := 0\<rparr>))
           else Inr s)
          (\<lambda>s1. let data = ByteQueuePeek (tx_queue s1); sz = length data in
                 if sz > 0
                 then Inr ((call (ADBWrite data sz) s1)\<lparr>bytes_transmitted := sz\<rparr>)
                 else Inr s1)
      else Inr s)"

subsection \<open>Dispatch (lines 15, 146-260)\<close>

text \<open>
  \<open>CHECK(cond)\<close> logs and returns \<open>FALSE\<close> from \<open>MessageDone\<close> when \<open>cond\<close> fails;
  otherwise the function goes on with \<open>k\<close>. The trace keeps the format string of the
  log line, not the text of the condition.
\<close>

definition CHECK ::
    "bool \<Rightarrow> state \<Rightarrow> (fault + bool \<times> state) \<Rightarrow> fault + bool \<times> state" where
  "CHECK cond s k =
     (if cond then k else Inr (False, call (log_printf ''Check failed: %s'') s))"

definition returning_TRUE :: "fault + state \<Rightarrow> fault + bool \<times> state" where
  "returning_TRUE r = and_then r (\<lambda>s. Inr (True, s))"

definition MessageDone :: "header \<Rightarrow> state \<Rightarrow> fault + bool \<times> state" where
  "MessageDone H s =
    (let t = msg_type (rx_msg s); a = (\<lambda>f. args_field H f (rx_msg s)) in
     if t = HARD_RESET then
       CHECK (a hard_reset_magic = IOIO_MAGIC H) s
         (Inr (True, call HardReset s))
     else if t = SOFT_RESET then
       returning_TRUE (Echo H (call SoftReset s))
     else if t = SET_PIN_DIGITAL_OUT then
       CHECK (a set_pin_digital_out_pin < NUM_PINS H) s
         (returning_TRUE (Echo H (call (SetPinDigitalOut (a set_pin_digital_out_pin)
            (a set_pin_digital_out_value) (a set_pin_digital_out_open_drain)) s)))
     else if t = SET_DIGITAL_OUT_LEVEL then
       CHECK (a set_digital_out_level_pin < NUM_PINS H) s
         (Inr (True, call (SetDigitalOutLevel (a set_digital_out_level_pin)
            (a set_digital_out_level_value)) s))
     else if t = SET_PIN_DIGITAL_IN then
       CHECK (a set_pin_digital_in_pin < NUM_PINS H) s
         (CHECK (a set_pin_digital_in_pull < 3) s
           (returning_TRUE (Echo H (call (SetPinDigitalIn (a set_pin_digital_in_pin)
              (a set_pin_digital_in_pull)) s))))
     else if t = SET_CHANGE_NOTIFY then
       CHECK (a set_change_notify_pin < NUM_PINS H) s
         (and_then (Echo H (call (SetChangeNotify (a set_change_notify_pin)
              (a set_change_notify_cn)) s))
            (\<lambda>s1. Inr (True,
               if a set_change_notify_cn \<noteq> 0
               then call (ReportDigitalInStatus (a set_change_notify_pin)) s1 else s1)))
     else if t = SET_PIN_PWM then
       CHECK (a set_pin_pwm_pin < NUM_PINS H) s
         (CHECK (a set_pin_pwm_pwm_num < NUM_PWMS H \<or> a set_pin_pwm_pwm_num = 15) s
           (Inr (True, call (SetPinPwm (a set_pin_pwm_pin) (a set_pin_pwm_pwm_num)) s)))
     else if t = SET_PWM_DUTY_CYCLE then
       CHECK (a set_pwm_duty_cycle_pwm_num < NUM_PWMS H) s
         (Inr (True, call (SetPwmDutyCycle (a set_pwm_duty_cycle_pwm_num)
            (a set_pwm_duty_cycle_dc) (a set_pwm_duty_cycle_fraction)) s))
     else if t = SET_PWM_PERIOD then
       CHECK (a set_pwm_period_pwm_num < NUM_PWMS H) s
         (Inr (True, call (SetPwmPeriod (a set_pwm_period_pwm_num)
            (a set_pwm_period_period) (a set_pwm_period_scale256)) s))
     else if t = SET_PIN_ANALOG_IN then
       CHECK (a set_pin_analog_in_pin < NUM_PINS H) s
         (returning_TRUE (Echo H (call (SetPinAnalogIn (a set_pin_analog_in_pin)) s)))
     else if t = UART_DATA then
       CHECK (a uart_data_uart_num < NUM_UARTS H) s
         (Inr (True, call (UARTTransmit (a uart_data_uart_num)
            (take (a uart_data_size + 1) (drop (uart_data_data H) (rx_msg s)))
            (a uart_data_size + 1)) s))
     else if t = UART_CONFIG then
       CHECK (a uart_config_uart_num < NUM_UARTS H) s
         (CHECK (a uart_config_parity < 3) s
           (and_then (Echo H (call (UARTConfig (a uart_config_uart_num) (a uart_config_rate)
                (a uart_config_speed4x) (a uart_config_two_stop_bits)
                (a uart_config_parity)) s))
              (\<lambda>s1. Inr (True, call (UARTReportTxStatus (a uart_config_uart_num)) s1))))
     else if t = SET_PIN_UART_RX then
       CHECK (a set_pin_uart_rx_pin < NUM_PINS H) s
         (CHECK (a set_pin_uart_rx_uart_num < NUM_UARTS H) s
           (returning_TRUE (Echo H (call (SetPinUartRx (a set_pin_uart_rx_pin)
              (a set_pin_uart_rx_uart_num) (a set_pin_uart_rx_enable)) s))))
     else if t = SET_PIN_UART_TX then
       CHECK (a set_pin_uart_tx_pin < NUM_PINS H) s
         (CHECK (a set_pin_uart_tx_uart_num < NUM_UARTS H) s
           (returning_TRUE (Echo H (call (SetPinUartTx (a set_pin_uart_tx_pin)
              (a set_pin_uart_tx_uart_num) (a set_pin_uart_tx_enable)) s))))
     else Inr (False, s))"

subsection \<open>The decoder (lines 262-305)\<close>

text \<open>
  The chunk \<open>data\<close>, \<open>data_len\<close> is the list \<open>data\<close> (a non-null pointer, as the
  \<open>assert\<close> demands, and a length below \<open>2 ^ 32\<close>).
\<close>

text \<open>\<open>memcpy(((BYTE *) &rx_msg) + at, src, length src)\<close>.\<close>

definition memcpy :: "byte list \<Rightarrow> nat \<Rightarrow> byte list \<Rightarrow> fault + byte list" where
  "memcpy buf at src =
     (if at + length src \<le> length buf
      then Inr (take at buf @ src @ drop (at + length src) buf)
      else Inl RxMsgOverrun)"

text \<open>Lines 267-278: copy a chunk of data to \<open>rx_msg\<close>; the rest of \<open>data\<close> is returned.\<close>

definition copy_chunk :: "byte list \<Rightarrow> state \<Rightarrow> fault + byte list \<times> state" where
  "copy_chunk data s =
     (let n = rx_message_remaining s in
      if length data \<ge> n then
        and_then (memcpy (rx_msg s) (rx_buffer_cursor s) (take n data)) (\<lambda>m.
          Inr (drop n data,
               s\<lparr>rx_msg := m, rx_buffer_cursor := rx_buffer_cursor s + n,
                 rx_message_remaining := 0\<rparr>))
      else
        and_then (memcpy (rx_msg s) (rx_buffer_cursor s) data) (\<lambda>m.
          Inr ([],
               s\<lparr>rx_msg := m, rx_buffer_cursor := rx_buffer_cursor s + length data,
                 rx_message_remaining := n - length data\<rparr>)))"

text \<open>
  Lines 282-301: the switch, one function per label because a label falls through to
  the next. The boolean is \<open>False\<close> where the C returns \<open>FALSE\<close> and \<open>True\<close> where it
  leaves the switch.
\<close>

definition case_WAIT_VAR_ARGS :: "header \<Rightarrow> state \<Rightarrow> fault + bool \<times> state" where
  "case_WAIT_VAR_ARGS H s =
     MessageDone H
       (s\<lparr>rx_message_state := WAIT_TYPE, rx_message_remaining := 1, rx_buffer_cursor := 0,
          dispatched := dispatched s @ [rx_msg s]\<rparr>)"

definition case_WAIT_ARGS :: "header \<Rightarrow> state \<Rightarrow> fault + bool \<times> state" where
  "case_WAIT_ARGS H s =
     (let s1 = s\<lparr>rx_message_state := WAIT_VAR_ARGS,
                 rx_message_remaining := IncomingVarArgSize H (rx_msg s)\<rparr>
      in if rx_message_remaining s1 \<noteq> 0 then Inr (True, s1) else case_WAIT_VAR_ARGS H s1)"

definition case_WAIT_TYPE :: "header \<Rightarrow> state \<Rightarrow> fault + bool \<times> state" where
  "case_WAIT_TYPE H s =
     and_then (table_at (incoming_arg_size H) (msg_type (rx_msg s))) (\<lambda>n.
       let s1 = s\<lparr>rx_message_state := WAIT_ARGS, rx_message_remaining := n\<rparr>
       in if rx_message_remaining s1 \<noteq> 0 then Inr (True, s1) else case_WAIT_ARGS H s1)"

definition change_state :: "header \<Rightarrow> state \<Rightarrow> fault + bool \<times> state" where
  "change_state H s =
     (if rx_message_remaining s = 0 then
        (case rx_message_state s of
           WAIT_TYPE \<Rightarrow> case_WAIT_TYPE H s
         | WAIT_ARGS \<Rightarrow> case_WAIT_ARGS H s
         | WAIT_VAR_ARGS \<Rightarrow> case_WAIT_VAR_ARGS H s)
      else Inr (True, s))"

text \<open>One turn of the \<open>while\<close> loop: the copy, then the change of state.\<close>

definition loop_body :: "header \<Rightarrow> byte list \<Rightarrow> state \<Rightarrow> fault + bool \<times> byte list \<times> state" where
  "loop_body H data s =
     and_then (copy_chunk data s) (\<lambda>(data', s1).
     and_then (change_state H s1) (\<lambda>(go_on, s2). Inr (go_on, data', s2)))"

function AppProtocolHandleIncoming :: "header \<Rightarrow> byte list \<Rightarrow> state \<Rightarrow> fault + bool \<times> state" where
  "AppProtocolHandleIncoming H data s =
     (if length data > 0 then
        (case loop_body H data s of
           Inl f \<Rightarrow> Inl f
         | Inr (go_on, data', s') \<Rightarrow>
             if go_on then AppProtocolHandleIncoming H data' s' else Inr (False, s'))
      else Inr (True, s))"
  by pat_completeness auto

subsection \<open>Callers and observations\<close>

text \<open>The caller of the decoder: one call per chunk, in order, whatever each call returns.\<close>

fun feed_chunks :: "header \<Rightarrow> byte list list \<Rightarrow> state \<Rightarrow> fault + bool list \<times> state" where
  "feed_chunks H [] s = Inr ([], s)"
| "feed_chunks H (c # cs) s =
     and_then (AppProtocolHandleIncoming H c s) (\<lambda>(ok, s1).
     and_then (feed_chunks H cs s1) (\<lambda>(oks, s2). Inr (ok # oks, s2)))"

text \<open>What a run shows: the return values, the calls made and the messages dispatched.\<close>

definition observed ::
    "fault + bool list \<times> state \<Rightarrow> fault + bool list \<times> call list \<times> byte list list" where
  "observed r = and_then r (\<lambda>(oks, s). Inr (oks, trace s, dispatched s))"

text \<open>The decoder stands at the start of a message.\<close>

definition at_message_start :: "state \<Rightarrow> bool" where
  "at_message_start s \<longleftrightarrow>
     rx_message_state s = WAIT_TYPE \<and> rx_message_remaining s = 1 \<and> rx_buffer_cursor s = 0"

text \<open>
  The state in which line 299 calls \<open>MessageDone\<close> once the bytes \<open>m\<close> of a message are
  at the start of \<open>rx_msg\<close>: the cursor state is reset first.
\<close>

definition completed :: "byte list \<Rightarrow> state \<Rightarrow> state" where
  "completed m s =
     (let buf = m @ drop (length m) (rx_msg s) in
      s\<lparr>rx_msg := buf, rx_message_state := WAIT_TYPE, rx_message_remaining := 1,
        rx_buffer_cursor := 0, dispatched := dispatched s @ [buf]\<rparr>)"

text \<open>What \<open>MessageDone\<close> and the senders leave alone: everything but queue and trace.\<close>

definition kept :: "state \<Rightarrow> state \<Rightarrow> bool" where
  "kept s s' \<longleftrightarrow>
     rx_msg s' = rx_msg s \<and> rx_buffer_cursor s' = rx_buffer_cursor s \<and>
     rx_message_remaining s' = rx_message_remaining s \<and>
     rx_message_state s' = rx_message_state s \<and> dispatched s' = dispatched s \<and>
     bytes_transmitted s' = bytes_transmitted s"

text \<open>The message types whose case in \<open>MessageDone\<close> calls \<open>Echo()\<close>.\<close>

definition echoed :: "byte list" where
  "echoed = [SOFT_RESET, SET_PIN_DIGITAL_OUT, SET_PIN_DIGITAL_IN, SET_CHANGE_NOTIFY,
             SET_PIN_ANALOG_IN, UART_CONFIG, SET_PIN_UART_RX, SET_PIN_UART_TX]"

text \<open>The calls made between two states, the first of which led to the second.\<close>

definition new_calls :: "state \<Rightarrow> state \<Rightarrow> call list" where
  "new_calls s s' = drop (length (trace s)) (trace s')"

fun is_push :: "call \<Rightarrow> bool" where
  "is_push (PushBuffer bs) = True"
| "is_push c = False"

fun is_report :: "call \<Rightarrow> bool" where
  "is_report (ReportDigitalInStatus pin) = True"
| "is_report (UARTReportTxStatus uart) = True"
| "is_report c = False"

subsection \<open>An instance of the missing headers\<close>

text \<open>
  For evaluation on concrete inputs: a packed layout with one byte per field, two
  bytes for the PWM duty cycle, the PWM period and the UART rate, four bytes for the
  magic number, all little-endian, fields in the order in which \<open>MessageDone\<close> passes
  them on; the UART data follow the size byte. The theorems below hold for every
  header; this one only serves to run the functions.
\<close>

definition le_nat :: "byte list \<Rightarrow> nat" where
  "le_nat bs = foldr (\<lambda>b n. unat b + 256 * n) bs 0"

fun example_place :: "field \<Rightarrow> nat \<times> nat" where
  "example_place hard_reset_magic = (1, 4)"
| "example_place set_pin_digital_out_pin = (1, 1)"
| "example_place set_pin_digital_out_value = (2, 1)"
| "example_place set_pin_digital_out_open_drain = (3, 1)"
| "example_place set_digital_out_level_pin = (1, 1)"
| "example_place set_digital_out_level_value = (2, 1)"
| "example_place set_pin_digital_in_pin = (1, 1)"
| "example_place set_pin_digital_in_pull = (2, 1)"
| "example_place set_change_notify_pin = (1, 1)"
| "example_place set_change_notify_cn = (2, 1)"
| "example_place set_pin_pwm_pin = (1, 1)"
| "example_place set_pin_pwm_pwm_num = (2, 1)"
| "example_place set_pwm_duty_cycle_pwm_num = (1, 1)"
| "example_place set_pwm_duty_cycle_dc = (2, 2)"
| "example_place set_pwm_duty_cycle_fraction = (4, 1)"
| "example_place set_pwm_period_pwm_num = (1, 1)"
| "example_place set_pwm_period_period = (2, 2)"
| "example_place set_pwm_period_scale256 = (4, 1)"
| "example_place set_pin_analog_in_pin = (1, 1)"
| "example_place uart_data_uart_num = (1, 1)"
| "example_place uart_data_size = (2, 1)"
| "example_place uart_config_uart_num = (1, 1)"
| "example_place uart_config_rate = (2, 2)"
| "example_place uart_config_speed4x = (4, 1)"
| "example_place uart_config_two_stop_bits = (5, 1)"
| "example_place uart_config_parity = (6, 1)"
| "example_place set_pin_uart_rx_pin = (1, 1)"
| "example_place set_pin_uart_rx_uart_num = (2, 1)"
| "example_place set_pin_uart_rx_enable = (3, 1)"
| "example_place set_pin_uart_tx_pin = (1, 1)"
| "example_place set_pin_uart_tx_uart_num = (2, 1)"
| "example_place set_pin_uart_tx_enable = (3, 1)"

definition example_field :: "field \<Rightarrow> byte list \<Rightarrow> nat" where
  "example_field f m = (case example_place f of (off, w) \<Rightarrow> le_nat (take w (drop off m)))"

fun example_sizeof :: "args_struct \<Rightarrow> nat" where
  "example_sizeof HARD_RESET_ARGS = 4"
| "example_sizeof SOFT_RESET_ARGS = 0"
| "example_sizeof SET_PIN_DIGITAL_OUT_ARGS = 3"
| "example_sizeof SET_DIGITAL_OUT_LEVEL_ARGS = 2"
| "example_sizeof SET_PIN_DIGITAL_IN_ARGS = 2"
| "example_sizeof SET_CHANGE_NOTIFY_ARGS = 2"
| "example_sizeof REGISTER_PERIODIC_DIGITAL_SAMPLING_ARGS = 2"
| "example_sizeof RESERVED_ARGS = 0"
| "example_sizeof SET_PIN_PWM_ARGS = 2"
| "example_sizeof SET_PWM_DUTY_CYCLE_ARGS = 4"
| "example_sizeof SET_PWM_PERIOD_ARGS = 4"
| "example_sizeof SET_PIN_ANALOG_IN_ARGS = 1"
| "example_sizeof UART_DATA_ARGS = 2"
| "example_sizeof UART_CONFIG_ARGS = 6"
| "example_sizeof SET_PIN_UART_RX_ARGS = 3"
| "example_sizeof SET_PIN_UART_TX_ARGS = 3"
| "example_sizeof ESTABLISH_CONNECTION_ARGS = 7"
| "example_sizeof REPORT_DIGITAL_IN_STATUS_ARGS = 2"
| "example_sizeof REPORT_ANALOG_IN_FORMAT_ARGS = 1"
| "example_sizeof REPORT_ANALOG_IN_STATUS_ARGS = 2"
| "example_sizeof UART_REPORT_TX_STATUS = 2"

text \<open>
  In the instance the connection message holds the four bytes of the magic number and
  one byte for each of hardware, bootloader and firmware.
\<close>

definition example_header :: header where
  "example_header =
     \<lparr>sizeof = example_sizeof, args_field = example_field, uart_data_data = 3,
      IOIO_MAGIC = 1330204489, NUM_PINS = 48, NUM_PWMS = 9, NUM_UARTS = 4,
      establish_connection_msg = (\<lambda>magic hardware bootloader firmware.
        [ESTABLISH_CONNECTION, of_nat magic, of_nat (magic div 256),
         of_nat (magic div 65536), of_nat (magic div 16777216),
         of_nat hardware, of_nat bootloader, of_nat firmware])\<rparr>"

text \<open>
  The statics before \<open>AppProtocolInit\<close>: a queue of capacity 1024 (line 61) and, in the
  instance, an \<open>rx_msg\<close> of 1 + 2 + 256 bytes, all zero.
\<close>

definition power_on :: state where
  "power_on =
     \<lparr>tx_queue = \<lparr>capacity = 1024, read_cursor = 0, contents = []\<rparr>,
      bytes_transmitted = 0, rx_msg = replicate 259 0, rx_buffer_cursor = 0,
      rx_message_remaining = 0, rx_message_state = WAIT_TYPE, trace = [],
      dispatched = []\<rparr>"

text \<open>The state that \<open>AppProtocolInit\<close> makes of it (lemma \<open>Init_power_on\<close>).\<close>

definition initial :: state where
  "initial =
     \<lparr>tx_queue = \<lparr>capacity = 1024, read_cursor = 0, contents = [0, 73, 79, 73, 79, 0, 1, 1]\<rparr>,
      bytes_transmitted = 0, rx_msg = replicate 259 0, rx_buffer_cursor = 0,
      rx_message_remaining = 1, rx_message_state = WAIT_TYPE,
      trace = [PushBuffer [0, 73, 79, 73, 79, 0, 1, 1]], dispatched = []\<rparr>"

text \<open>The instance after \<open>AppProtocolInit\<close> and the one byte \<open>SET_PIN_DIGITAL_OUT\<close>.\<close>

definition mid_message :: state where
  "mid_message = initial\<lparr>rx_msg := 2 # replicate 258 0, rx_buffer_cursor := 1,
     rx_message_remaining := 3, rx_message_state := WAIT_ARGS\<rparr>"

section \<open>Basic facts\<close>

lemma and_then_Inr_iff: "and_then r k = Inr y \<longleftrightarrow> (\<exists>x. r = Inr x \<and> k x = Inr y)"
  by (cases r) (simp_all add: and_then_def)

lemma and_then_simps [simp]: "and_then (Inl f) k = Inl f" "and_then (Inr x) k = k x"
  by (simp_all add: and_then_def)

lemma Init_power_on: "AppProtocolInit example_header power_on = Inr initial"
  by (simp add: AppProtocolInit_def AppProtocolSendMessage_def OutgoingMessageLength_def
      table_at_def outgoing_arg_size_def msg_type_def ByteQueuePushBuffer_def bytes_at_def
      ByteQueueClear_def call_def example_header_def power_on_def initial_def
      MESSAGE_TYPE_LIMIT_def ESTABLISH_CONNECTION_def FIRMWARE_ID_def)

subsection \<open>What dispatch leaves alone\<close>

lemma kept_refl [simp]: "kept s s"
  by (simp add: kept_def)

lemma kept_call [simp]: "kept s (call c s)"
  by (simp add: kept_def call_def)

lemma kept_call2 [simp]: "kept s x \<Longrightarrow> kept s (call c x)"
  by (simp add: kept_def call_def)

lemma kept_trans: "kept s s1 \<Longrightarrow> kept s1 s2 \<Longrightarrow> kept s s2"
  by (simp add: kept_def)

lemma send_kept: "AppProtocolSendMessage H msg s = Inr s' \<Longrightarrow> kept s s'"
  by (auto simp: AppProtocolSendMessage_def and_then_Inr_iff call_def kept_def)

lemma Echo_call_kept: "Echo H (call c s) = Inr s' \<Longrightarrow> kept s s'"
  unfolding Echo_def by (drule send_kept) (simp add: kept_def call_def)

lemma CHECK_cases:
  "CHECK c s k = Inr (b, s') \<Longrightarrow>
     (\<not> c \<and> \<not> b \<and> s' = call (log_printf ''Check failed: %s'') s) \<or> (c \<and> k = Inr (b, s'))"
  by (auto simp: CHECK_def split: if_splits)

lemma MessageDone_kept: "MessageDone H s = Inr (b, s') \<Longrightarrow> kept s s'"
  unfolding MessageDone_def Let_def
  by (auto simp: returning_TRUE_def and_then_Inr_iff
      dest!: CHECK_cases Echo_call_kept  intro: kept_trans split: if_splits)

lemma copy_chunk_length:
  "copy_chunk data s = Inr (data', s1) \<Longrightarrow>
     length data' = length data - min (length data) (rx_message_remaining s)"
  by (auto simp: copy_chunk_def Let_def and_then_Inr_iff split: if_splits)

lemma case_WAIT_VAR_ARGS_remaining:
  "case_WAIT_VAR_ARGS H s = Inr (b, s') \<Longrightarrow> rx_message_remaining s' = 1"
  by (auto simp: case_WAIT_VAR_ARGS_def kept_def dest!: MessageDone_kept)

lemma case_WAIT_ARGS_remaining:
  "case_WAIT_ARGS H s = Inr (b, s') \<Longrightarrow> 0 < rx_message_remaining s'"
  by (auto simp: case_WAIT_ARGS_def Let_def dest!: case_WAIT_VAR_ARGS_remaining split: if_splits)

lemma case_WAIT_TYPE_remaining:
  "case_WAIT_TYPE H s = Inr (b, s') \<Longrightarrow> 0 < rx_message_remaining s'"
  by (auto simp: case_WAIT_TYPE_def Let_def and_then_Inr_iff dest!: case_WAIT_ARGS_remaining split: if_splits)

lemma change_state_remaining:
  "change_state H s = Inr (b, s') \<Longrightarrow> 0 < rx_message_remaining s'"
  by (auto simp: change_state_def dest: case_WAIT_VAR_ARGS_remaining case_WAIT_ARGS_remaining
      case_WAIT_TYPE_remaining split: if_splits RX_MESSAGE_STATE.splits)

lemma loop_body_decreases:
  assumes "loop_body H data s = Inr (b, data', s')" and "0 < length data"
  shows "2 * length data' + (if rx_message_remaining s' = 0 then 1 else 0)
       < 2 * length data + (if rx_message_remaining s = 0 then 1 else 0)"
proof -
  from assms(1) obtain s1 where c: "copy_chunk data s = Inr (data', s1)"
    and t: "change_state H s1 = Inr (b, s')"
    by (auto simp: loop_body_def and_then_Inr_iff)
  from t have "0 < rx_message_remaining s'" by (rule change_state_remaining)
  with copy_chunk_length [OF c] assms(2) show ?thesis
    by (auto simp: min_def split: if_splits)
qed

termination AppProtocolHandleIncoming
  by (relation "measure (\<lambda>(H, data, s).
        2 * length data + (if rx_message_remaining s = 0 then 1 else 0))")
     (auto dest!: loop_body_decreases simp del: One_nat_def)

lemma memcpy_append:
  "memcpy buf c (x @ y) = and_then (memcpy buf c x) (\<lambda>m. memcpy m (c + length x) y)"
proof (cases "c + length x + length y \<le> length buf")
  case True
  then have le: "c + length x \<le> length buf" "c \<le> length buf" by simp_all
  have len: "length (take c buf @ x @ drop (c + length x) buf) = length buf"
    using le by simp
  have "take (c + length x) (take c buf @ x @ drop (c + length x) buf) = take c buf @ x"
    using le by simp
  moreover have "drop (c + length x + length y) (take c buf @ x @ drop (c + length x) buf)
      = drop (c + length x + length y) buf"
    using le by (simp add: ac_simps)
  ultimately show ?thesis
    using True le len unfolding memcpy_def by (simp add: add.assoc)
next
  case False
  then show ?thesis by (simp add: memcpy_def add.assoc)
qed

lemma copy_chunk_append_ge:
  "rx_message_remaining s \<le> length a \<Longrightarrow>
     copy_chunk (a @ b) s = and_then (copy_chunk a s) (\<lambda>(d, s1). Inr (d @ b, s1))"
  by (cases "memcpy (rx_msg s) (rx_buffer_cursor s) (take (rx_message_remaining s) a)")
     (auto simp: copy_chunk_def Let_def)

lemma loop_body_append_ge:
  "rx_message_remaining s \<le> length a \<Longrightarrow>
     loop_body H (a @ b) s = and_then (loop_body H a s) (\<lambda>(g, d, s1). Inr (g, d @ b, s1))"
  by (cases "copy_chunk a s")
     (auto simp: loop_body_def copy_chunk_append_ge and_then_def split: sum.splits prod.splits)

lemma copy_chunk_append_lt:
  assumes "length a < rx_message_remaining s"
  shows "copy_chunk (a @ b) s = and_then (copy_chunk a s) (\<lambda>(d, s1). copy_chunk b s1)"
proof (cases "memcpy (rx_msg s) (rx_buffer_cursor s) a")
  case (Inl f)
  then show ?thesis using assms
    by (auto simp: copy_chunk_def Let_def memcpy_def split: if_splits)
next
  case (Inr m)
  then show ?thesis using assms
    by (auto simp: copy_chunk_def Let_def memcpy_append [of _ _ a] add.assoc)
qed

lemma HandleIncoming_Nil [simp]: "AppProtocolHandleIncoming H [] s = Inr (True, s)"
  by simp

lemma HandleIncoming_nonempty:
  "data \<noteq> [] \<Longrightarrow> AppProtocolHandleIncoming H data s =
     and_then (loop_body H data s) (\<lambda>(go_on, data', s').
       if go_on then AppProtocolHandleIncoming H data' s' else Inr (False, s'))"
  by (simp add: and_then_def split: sum.splits)

declare AppProtocolHandleIncoming.simps [simp del]

lemma loop_body_lt:
  "length a < rx_message_remaining s \<Longrightarrow>
     loop_body H a s = and_then (copy_chunk a s) (\<lambda>(d, s1). Inr (True, [], s1))"
  by (cases "memcpy (rx_msg s) (rx_buffer_cursor s) a")
     (auto simp: loop_body_def copy_chunk_def change_state_def Let_def)

lemma loop_body_append_lt:
  "length a < rx_message_remaining s \<Longrightarrow>
     loop_body H (a @ b) s = and_then (copy_chunk a s) (\<lambda>(d, s1). loop_body H b s1)"
  by (cases "copy_chunk a s") (auto simp: loop_body_def copy_chunk_append_lt)

lemma HandleIncoming_append:
  "AppProtocolHandleIncoming H (a @ b) s =
     and_then (AppProtocolHandleIncoming H a s) (\<lambda>(ok, s1).
       if ok then AppProtocolHandleIncoming H b s1 else Inr (False, s1))"
proof (induction H a s rule: AppProtocolHandleIncoming.induct)
  case (1 H a s)
  show ?case
  proof (cases "a = [] \<or> b = []")
    case True
    then show ?thesis
      by (cases "AppProtocolHandleIncoming H a s") (auto split: prod.splits)
  next
    case False
    then have ne: "a \<noteq> []" "b \<noteq> []" "a @ b \<noteq> []" by simp_all
    show ?thesis
    proof (cases "rx_message_remaining s \<le> length a")
      case True
      show ?thesis
      proof (cases "loop_body H a s")
        case (Inl f)
        then show ?thesis
          by (simp add: HandleIncoming_nonempty [OF ne(1)] HandleIncoming_nonempty [OF ne(3)]
              loop_body_append_ge [OF True])
      next
        case (Inr r)
        obtain g d s' where r: "r = (g, d, s')" by (cases r)
        show ?thesis
        proof (cases g)
          case True
          with "1.IH" [of "(g, d, s')" g "(d, s')" d s'] Inr r ne
          have "AppProtocolHandleIncoming H (d @ b) s' =
            and_then (AppProtocolHandleIncoming H d s') (\<lambda>(ok, s1).
              if ok then AppProtocolHandleIncoming H b s1 else Inr (False, s1))"
            by simp
          with Inr r True \<open>rx_message_remaining s \<le> length a\<close> show ?thesis
            by (simp add: HandleIncoming_nonempty [OF ne(1)] HandleIncoming_nonempty [OF ne(3)]
              loop_body_append_ge)
        next
          case False
          with Inr r \<open>rx_message_remaining s \<le> length a\<close> show ?thesis
            by (simp add: HandleIncoming_nonempty [OF ne(1)] HandleIncoming_nonempty [OF ne(3)]
              loop_body_append_ge)
        qed
      qed
    next
      case False
      then have lt: "length a < rx_message_remaining s" by simp
      show ?thesis
      proof (cases "copy_chunk a s")
        case (Inl f)
        then show ?thesis
          by (simp add: HandleIncoming_nonempty [OF ne(1)] HandleIncoming_nonempty [OF ne(3)]
              loop_body_lt [OF lt] loop_body_append_lt [OF lt])
      next
        case (Inr r)
        obtain d s1 where r: "r = (d, s1)" by (cases r)
        with Inr show ?thesis
          by (simp add: HandleIncoming_nonempty [OF ne(1)] HandleIncoming_nonempty [OF ne(3)]
              HandleIncoming_nonempty [OF ne(2)]
              loop_body_lt [OF lt] loop_body_append_lt [OF lt])
      qed
    qed
  qed
qed

subsection \<open>Running the functions on concrete inputs\<close>

lemmas ex_defs = example_header_def initial_def example_field_def le_nat_def
  incoming_arg_size_def outgoing_arg_size_def table_at_def MESSAGE_TYPE_LIMIT_def msg_type_def
  HARD_RESET_def SOFT_RESET_def SET_PIN_DIGITAL_OUT_def SET_DIGITAL_OUT_LEVEL_def
  SET_PIN_DIGITAL_IN_def SET_CHANGE_NOTIFY_def SET_PIN_PWM_def SET_PWM_DUTY_CYCLE_def
  SET_PWM_PERIOD_def SET_PIN_ANALOG_IN_def UART_DATA_def UART_CONFIG_def SET_PIN_UART_RX_def
  SET_PIN_UART_TX_def RESERVED_def REGISTER_PERIODIC_DIGITAL_SAMPLING_def

lemma run_type_byte:
  "AppProtocolHandleIncoming example_header [2] initial = Inr (True, mid_message)"
  by (simp add: HandleIncoming_nonempty loop_body_def copy_chunk_def memcpy_def
      change_state_def case_WAIT_TYPE_def ex_defs mid_message_def Let_def)

lemmas run_defs = HandleIncoming_nonempty loop_body_def copy_chunk_def memcpy_def
  change_state_def case_WAIT_TYPE_def case_WAIT_ARGS_def case_WAIT_VAR_ARGS_def
  IncomingVarArgSize_def MessageDone_def CHECK_def returning_TRUE_def Echo_def
  AppProtocolSendMessage_def OutgoingMessageLength_def bytes_at_def ByteQueuePushBuffer_def
  call_def Let_def

section \<open>Fragmentation\<close>

lemma feed_chunks_concat:
  "AppProtocolHandleIncoming H (concat cs) s = Inr (True, s') \<Longrightarrow>
     feed_chunks H cs s = Inr (replicate (length cs) True, s')"
proof (induction cs arbitrary: s)
  case Nil
  then show ?case by simp
next
  case (Cons c cs)
  from Cons.prems obtain ok s1 where
    c: "AppProtocolHandleIncoming H c s = Inr (ok, s1)" and
    r: "(if ok then AppProtocolHandleIncoming H (concat cs) s1 else Inr (False, s1))
          = Inr (True, s')"
    by (auto simp: HandleIncoming_append and_then_Inr_iff)
  from r have ok and "AppProtocolHandleIncoming H (concat cs) s1 = Inr (True, s')"
    by (auto split: if_splits)
  with Cons.IH [of s1] c show ?case by simp
qed

lemma concat_singletons: "concat (map (\<lambda>b. [b]) xs) = xs"
  by (induction xs) simp_all

text \<open>
  What holds of the code: let one call of \<open>AppProtocolHandleIncoming\<close> on the whole
  stream return \<open>TRUE\<close> in state \<open>s'\<close>. Then feeding the stream in any sequence of
  chunks, one call per chunk, returns \<open>TRUE\<close> at each call and ends in the same state
  \<open>s'\<close>: the same list \<open>dispatched\<close>, the same trace of calls, the same queue. Feeding
  one byte at a time is the chunking into singletons.
\<close>

lemma fragmentation_when_accepted:
  assumes "AppProtocolHandleIncoming H stream s = Inr (True, s')"
  shows "(\<forall>cs. concat cs = stream \<longrightarrow>
            feed_chunks H cs s = Inr (replicate (length cs) True, s')) \<and>
         feed_chunks H (map (\<lambda>b. [b]) stream) s = Inr (replicate (length stream) True, s')"
proof
  show "\<forall>cs. concat cs = stream \<longrightarrow>
          feed_chunks H cs s = Inr (replicate (length cs) True, s')"
    using assms by (auto intro: feed_chunks_concat)
  show "feed_chunks H (map (\<lambda>b. [b]) stream) s = Inr (replicate (length stream) True, s')"
    using feed_chunks_concat [of H "map (\<lambda>b. [b]) stream" s s'] assms
    by (simp add: concat_singletons)
qed

lemma fragmentation_when_accepted_example:
  "\<exists>s'. AppProtocolHandleIncoming example_header [2, 3, 1, 0, 1] initial = Inr (True, s') \<and>
        feed_chunks example_header [[2], [3, 1], [0, 1]] initial
          = Inr ([True, True, True], s') \<and>
        feed_chunks example_header [[2], [3], [1], [0], [1]] initial
          = Inr ([True, True, True, True, True], s') \<and>
        dispatched s' = [2 # 3 # 1 # 0 # replicate 255 0, 1 # 3 # 1 # 0 # replicate 255 0]"
proof -
  have "\<exists>s'. AppProtocolHandleIncoming example_header [2, 3, 1, 0, 1] initial = Inr (True, s')
          \<and> dispatched s' = [2 # 3 # 1 # 0 # replicate 255 0, 1 # 3 # 1 # 0 # replicate 255 0]"
    by (simp add: run_defs ex_defs)
  then obtain s' where
    w: "AppProtocolHandleIncoming example_header [2, 3, 1, 0, 1] initial = Inr (True, s')" and
    d: "dispatched s' = [2 # 3 # 1 # 0 # replicate 255 0, 1 # 3 # 1 # 0 # replicate 255 0]"
    by blast
  from fragmentation_when_accepted [OF w]
  have a: "concat cs = [2, 3, 1, 0, 1] \<longrightarrow>
        feed_chunks example_header cs initial = Inr (replicate (length cs) True, s')" for cs
    by blast
  from fragmentation_when_accepted [OF w]
  have b: "feed_chunks example_header (map (\<lambda>b. [b]) [2, 3, 1, 0, 1]) initial
          = Inr (replicate (length [2, 3, 1, 0, 1 :: byte]) True, s')"
    by blast
  from a [of "[[2], [3, 1], [0, 1]]"]
  have "feed_chunks example_header [[2], [3, 1], [0, 1]] initial = Inr ([True, True, True], s')"
    by (simp add: numeral_3_eq_3)
  moreover from b
  have "feed_chunks example_header [[2], [3], [1], [0], [1]] initial
          = Inr ([True, True, True, True, True], s')"
    by (simp add: eval_nat_numeral)
  ultimately show ?thesis using w d by blast
qed

text \<open>
  C1, on the code: decoding is not invariant to fragmentation on every stream of valid
  messages. The stream is one \<open>UART_DATA\<close> message with uart 0, size 255 and the 256
  data bytes 7, 1, 7, 0, ..., 0. \<open>IncomingVarArgSize\<close> cuts \<open>255 + 1\<close> to 0, so the
  message is dispatched after its third byte and the data bytes are decoded as
  messages. In one call, the data byte 7 (\<open>RESERVED\<close>, no case in \<open>MessageDone\<close>) ends the
  call with \<open>FALSE\<close> after two calls of \<open>MessageDone\<close>. Fed as the chunk
  \<open>[12, 0, 255, 7]\<close> and the chunk of the other 255 bytes, the second call goes on
  from the start of a message and dispatches a \<open>SOFT_RESET\<close> from the data byte 1:
  four calls of \<open>MessageDone\<close>.
\<close>

theorem fragmentation_differs_at_size_255:
  "observed (feed_chunks example_header [12 # 0 # 255 # 7 # 1 # 7 # replicate 253 0] initial) =
     Inr ([False],
          [PushBuffer [0, 73, 79, 73, 79, 0, 1, 1], UARTTransmit 0 (replicate 256 0) 256],
          [12 # 0 # 255 # replicate 256 0, 7 # 0 # 255 # replicate 256 0]) \<and>
   observed (feed_chunks example_header [[12, 0, 255, 7], 1 # 7 # replicate 253 0] initial) =
     Inr ([False, False],
          [PushBuffer [0, 73, 79, 73, 79, 0, 1, 1], UARTTransmit 0 (replicate 256 0) 256,
           SoftReset, PushBuffer [1]],
          [12 # 0 # 255 # replicate 256 0, 7 # 0 # 255 # replicate 256 0,
           1 # 0 # 255 # replicate 256 0, 7 # 0 # 255 # replicate 256 0])"
  by (simp add: observed_def run_defs ex_defs)

section \<open>Where the decoder fails and where it goes on\<close>

lemma case_WAIT_VAR_ARGS_False:
  "case_WAIT_VAR_ARGS H s = Inr (False, s') \<Longrightarrow>
     \<exists>s0. at_message_start s0 \<and> MessageDone H s0 = Inr (False, s')"
  unfolding case_WAIT_VAR_ARGS_def
  by (rule exI, rule conjI [rotated], assumption) (simp add: at_message_start_def)

lemma case_WAIT_ARGS_False:
  "case_WAIT_ARGS H s = Inr (False, s') \<Longrightarrow>
     \<exists>s0. at_message_start s0 \<and> MessageDone H s0 = Inr (False, s')"
  by (auto simp: case_WAIT_ARGS_def Let_def dest: case_WAIT_VAR_ARGS_False split: if_splits)

lemma case_WAIT_TYPE_False:
  "case_WAIT_TYPE H s = Inr (False, s') \<Longrightarrow>
     \<exists>s0. at_message_start s0 \<and> MessageDone H s0 = Inr (False, s')"
  by (auto simp: case_WAIT_TYPE_def Let_def and_then_Inr_iff dest: case_WAIT_ARGS_False
      split: if_splits)

lemma change_state_False:
  "change_state H s = Inr (False, s') \<Longrightarrow>
     \<exists>s0. at_message_start s0 \<and> MessageDone H s0 = Inr (False, s')"
  by (auto simp: change_state_def dest: case_WAIT_VAR_ARGS_False case_WAIT_ARGS_False
      case_WAIT_TYPE_False split: if_splits RX_MESSAGE_STATE.splits)

lemma loop_body_False:
  "loop_body H data s = Inr (False, d, s') \<Longrightarrow>
     \<exists>s0. at_message_start s0 \<and> MessageDone H s0 = Inr (False, s')"
  by (auto simp: loop_body_def and_then_Inr_iff dest: change_state_False)

lemma HandleIncoming_False:
  "AppProtocolHandleIncoming H data s = Inr (False, s') \<Longrightarrow>
     \<exists>s0. at_message_start s0 \<and> MessageDone H s0 = Inr (False, s')"
proof (induction H data s rule: AppProtocolHandleIncoming.induct)
  case (1 H data s)
  from "1.prems" have ne: "data \<noteq> []" by (cases data) auto
  from "1.prems" obtain g d s1 where lb: "loop_body H data s = Inr (g, d, s1)"
    and rest: "(if g then AppProtocolHandleIncoming H d s1 else Inr (False, s1)) = Inr (False, s')"
    by (auto simp: HandleIncoming_nonempty [OF ne] and_then_Inr_iff)
  show ?case
  proof (cases g)
    case True
    with rest lb ne "1.IH" [of "(g, d, s1)" g "(d, s1)" d s1] show ?thesis by simp
  next
    case False
    with rest lb show ?thesis by (auto dest: loop_body_False)
  qed
qed

lemma kept_at_message_start: "kept s s' \<Longrightarrow> at_message_start s \<Longrightarrow> at_message_start s'"
  by (simp add: kept_def at_message_start_def)

lemma HandleIncoming_False_at_start:
  "AppProtocolHandleIncoming H data s = Inr (False, s') \<Longrightarrow> at_message_start s'"
  by (auto dest!: HandleIncoming_False dest: MessageDone_kept kept_at_message_start)

lemma HandleIncoming_continue:
  "AppProtocolHandleIncoming H a s = Inr (True, s1) \<Longrightarrow>
     AppProtocolHandleIncoming H (a @ b) s = AppProtocolHandleIncoming H b s1"
  by (simp add: HandleIncoming_append)

lemma HandleIncoming_stop:
  "AppProtocolHandleIncoming H a s = Inr (False, s1) \<Longrightarrow>
     AppProtocolHandleIncoming H (a @ b) s = Inr (False, s1)"
  by (simp add: HandleIncoming_append)

lemma HandleIncoming_fault:
  "AppProtocolHandleIncoming H a s = Inl f \<Longrightarrow>
     AppProtocolHandleIncoming H (a @ b) s = Inl f"
  by (simp add: HandleIncoming_append)

lemma HandleIncoming_mid_field:
  assumes "length data < rx_message_remaining s"
    and "rx_buffer_cursor s + length data \<le> length (rx_msg s)"
  shows "AppProtocolHandleIncoming H data s =
     Inr (True, s\<lparr>rx_msg := take (rx_buffer_cursor s) (rx_msg s) @ data @
                       drop (rx_buffer_cursor s + length data) (rx_msg s),
                   rx_buffer_cursor := rx_buffer_cursor s + length data,
                   rx_message_remaining := rx_message_remaining s - length data\<rparr>)"
proof (cases "data = []")
  case True
  then show ?thesis by simp
next
  case False
  with assms show ?thesis
    by (simp add: HandleIncoming_nonempty loop_body_lt copy_chunk_def memcpy_def Let_def)
qed

lemma first_failure:
  assumes "AppProtocolHandleIncoming H data s = Inr (False, s')"
  shows "\<exists>p r s1. data = p @ r \<and> p \<noteq> [] \<and>
           AppProtocolHandleIncoming H (butlast p) s = Inr (True, s1) \<and>
           (\<forall>r'. AppProtocolHandleIncoming H (p @ r') s = Inr (False, s'))"
proof -
  let ?P = "\<lambda>n. \<exists>t. AppProtocolHandleIncoming H (take n data) s = Inr (False, t)"
  from assms have "?P (length data)" by simp
  then obtain n where n: "?P n" and least: "\<forall>m<n. \<not> ?P m"
    using exists_least_iff [of ?P] by blast
  from n obtain t where t: "AppProtocolHandleIncoming H (take n data) s = Inr (False, t)" ..
  then have n0: "n \<noteq> 0" by (cases n) auto
  have nle: "n \<le> length data"
  proof (rule ccontr)
    assume "\<not> n \<le> length data"
    then have "length data < n" by simp
    with least assms show False by auto
  qed
  let ?p = "take n data"
  have pne: "?p \<noteq> []" using n0 nle by (cases data) auto
  have "data = ?p @ drop n data" by simp
  with HandleIncoming_stop [OF t, of "drop n data"] assms have tt: "t = s'" by simp
  have bl: "butlast ?p = take (n - 1) data" using nle
    by (simp add: butlast_take)
  have "\<exists>s1. AppProtocolHandleIncoming H (take (n - 1) data) s = Inr (True, s1)"
  proof (cases "AppProtocolHandleIncoming H (take (n - 1) data) s")
    case (Inl f)
    have "take n data = take (n - 1) data @ drop (n - 1) (take n data)"
      by (metis append_take_drop_id diff_le_self min.absorb2 take_take min.commute)
    with HandleIncoming_fault [OF Inl, of "drop (n - 1) (take n data)"] t show ?thesis by simp
  next
    case (Inr x)
    obtain ok s1 where "x = (ok, s1)" by (cases x)
    with Inr least n0 show ?thesis by (cases ok) auto
  qed
  with bl pne tt t show ?thesis
    by (intro exI [of _ ?p] exI [of _ "drop n data"]) (auto intro: HandleIncoming_stop)
qed

text \<open>
  What holds of the code. The empty chunk returns \<open>TRUE\<close> and changes nothing. A
  chunk shorter than the bytes the current field still needs (and within \<open>rx_msg\<close>) returns
  \<open>TRUE\<close>; it only writes the bytes at the cursor and moves cursor and count. Whenever
  a call returns with the decoder not at the start of a message, it has returned \<open>TRUE\<close>;
  a return of \<open>FALSE\<close> is the \<open>FALSE\<close> of \<open>MessageDone\<close> on a message just completed.
  After a return of \<open>TRUE\<close> the next call continues: the two calls together do what one
  call on the joined input does.
\<close>

lemma partial_input_facts:
  "AppProtocolHandleIncoming H [] s = Inr (True, s) \<and>
   (\<forall>data. length data < rx_message_remaining s \<and>
            rx_buffer_cursor s + length data \<le> length (rx_msg s) \<longrightarrow>
      AppProtocolHandleIncoming H data s =
        Inr (True, s\<lparr>rx_msg := take (rx_buffer_cursor s) (rx_msg s) @ data @
                            drop (rx_buffer_cursor s + length data) (rx_msg s),
                      rx_buffer_cursor := rx_buffer_cursor s + length data,
                      rx_message_remaining := rx_message_remaining s - length data\<rparr>)) \<and>
   (\<forall>data ok s'. AppProtocolHandleIncoming H data s = Inr (ok, s') \<and>
                  \<not> at_message_start s' \<longrightarrow> ok) \<and>
   (\<forall>data s'. AppProtocolHandleIncoming H data s = Inr (False, s') \<longrightarrow>
      (\<exists>s0. at_message_start s0 \<and> MessageDone H s0 = Inr (False, s'))) \<and>
   (\<forall>a b s1. AppProtocolHandleIncoming H a s = Inr (True, s1) \<longrightarrow>
      AppProtocolHandleIncoming H (a @ b) s = AppProtocolHandleIncoming H b s1)"
proof (intro conjI allI impI)
  show "AppProtocolHandleIncoming H [] s = Inr (True, s)"
    by simp
next
  fix data :: "byte list"
  assume "length data < rx_message_remaining s \<and>
          rx_buffer_cursor s + length data \<le> length (rx_msg s)"
  then show "AppProtocolHandleIncoming H data s =
        Inr (True, s\<lparr>rx_msg := take (rx_buffer_cursor s) (rx_msg s) @ data @
                            drop (rx_buffer_cursor s + length data) (rx_msg s),
                      rx_buffer_cursor := rx_buffer_cursor s + length data,
                      rx_message_remaining := rx_message_remaining s - length data\<rparr>)"
    by (simp add: HandleIncoming_mid_field)
next
  fix data ok s'
  assume "AppProtocolHandleIncoming H data s = Inr (ok, s') \<and> \<not> at_message_start s'"
  then show ok
    by (cases ok) (auto dest: HandleIncoming_False_at_start)
next
  fix data s'
  assume "AppProtocolHandleIncoming H data s = Inr (False, s')"
  then show "\<exists>s0. at_message_start s0 \<and> MessageDone H s0 = Inr (False, s')"
    by (rule HandleIncoming_False)
next
  fix a b s1
  assume "AppProtocolHandleIncoming H a s = Inr (True, s1)"
  then show "AppProtocolHandleIncoming H (a @ b) s = AppProtocolHandleIncoming H b s1"
    by (rule HandleIncoming_continue)
qed

lemma partial_input_facts_example:
  "AppProtocolHandleIncoming example_header [2] initial = Inr (True, mid_message) \<and>
   AppProtocolHandleIncoming example_header [3] mid_message =
     Inr (True, mid_message\<lparr>rx_msg := 2 # 3 # replicate 257 0, rx_buffer_cursor := 2,
                  rx_message_remaining := 2\<rparr>) \<and>
   AppProtocolHandleIncoming example_header [2, 3, 1, 0] initial =
     AppProtocolHandleIncoming example_header [3, 1, 0] mid_message \<and>
   (\<exists>s' s0. AppProtocolHandleIncoming example_header [2, 200, 1, 0] initial = Inr (False, s') \<and>
      at_message_start s0 \<and> MessageDone example_header s0 = Inr (False, s'))"
proof -
  note inst = partial_input_facts [of example_header]
  have a: "AppProtocolHandleIncoming example_header [2] initial = Inr (True, mid_message)"
    by (rule run_type_byte)
  have "length [3 :: byte] < rx_message_remaining mid_message \<and>
        rx_buffer_cursor mid_message + length [3 :: byte] \<le> length (rx_msg mid_message)"
    by (simp add: mid_message_def initial_def)
  with inst [of mid_message]
  have "AppProtocolHandleIncoming example_header [3] mid_message =
     Inr (True, mid_message\<lparr>rx_msg := take (rx_buffer_cursor mid_message) (rx_msg mid_message) @ [3] @
                            drop (rx_buffer_cursor mid_message + length [3 :: byte]) (rx_msg mid_message),
                      rx_buffer_cursor := rx_buffer_cursor mid_message + length [3 :: byte],
                      rx_message_remaining := rx_message_remaining mid_message - length [3 :: byte]\<rparr>)"
    by blast
  then have b: "AppProtocolHandleIncoming example_header [3] mid_message =
     Inr (True, mid_message\<lparr>rx_msg := 2 # 3 # replicate 257 0, rx_buffer_cursor := 2,
                  rx_message_remaining := 2\<rparr>)"
    by (simp add: mid_message_def initial_def)
  from inst [of initial] a
  have c: "AppProtocolHandleIncoming example_header ([2] @ [3, 1, 0]) initial =
     AppProtocolHandleIncoming example_header [3, 1, 0] mid_message"
    by blast
  have "\<exists>s'. AppProtocolHandleIncoming example_header [2, 200, 1, 0] initial = Inr (False, s')"
    by (simp add: run_defs ex_defs)
  then obtain s' where
    f: "AppProtocolHandleIncoming example_header [2, 200, 1, 0] initial = Inr (False, s')" ..
  with inst [of initial]
  have "\<exists>s0. at_message_start s0 \<and> MessageDone example_header s0 = Inr (False, s')"
    by blast
  with a b c f show ?thesis by auto
qed

text \<open>
  C3, as the code has it. When dispatch of a completed message reports failure, the
  call returns \<open>FALSE\<close> at the byte \<open>p\<close> ends with (the call on \<open>p\<close> without its last byte
  still returns \<open>TRUE\<close>), whatever follows \<open>p\<close> in the chunk is not looked at, and the
  decoder is left at the start of a message. Nothing remembers the failure: the next
  call decodes from there.
\<close>

theorem dispatch_failure_ends_call:
  assumes "AppProtocolHandleIncoming H data s = Inr (False, s')"
  shows "at_message_start s' \<and>
         (\<exists>p r s1. data = p @ r \<and> p \<noteq> [] \<and>
            AppProtocolHandleIncoming H (butlast p) s = Inr (True, s1) \<and>
            (\<forall>r'. AppProtocolHandleIncoming H (p @ r') s = Inr (False, s')))"
proof
  from assms show "at_message_start s'"
    by (rule HandleIncoming_False_at_start)
  from assms show "\<exists>p r s1. data = p @ r \<and> p \<noteq> [] \<and>
            AppProtocolHandleIncoming H (butlast p) s = Inr (True, s1) \<and>
            (\<forall>r'. AppProtocolHandleIncoming H (p @ r') s = Inr (False, s'))"
    by (rule first_failure)
qed

theorem dispatch_failure_ends_call_witness:
  "\<exists>s'. AppProtocolHandleIncoming example_header [7, 1] initial = Inr (False, s') \<and>
     at_message_start s' \<and>
     (\<exists>p r s1. [7, 1] = p @ r \<and> p \<noteq> [] \<and>
        AppProtocolHandleIncoming example_header (butlast p) initial = Inr (True, s1) \<and>
        (\<forall>r'. AppProtocolHandleIncoming example_header (p @ r') initial = Inr (False, s')))"
proof -
  have "\<exists>s'. AppProtocolHandleIncoming example_header [7, 1] initial = Inr (False, s')"
    by (simp add: run_defs ex_defs)
  then obtain s' where
    f: "AppProtocolHandleIncoming example_header [7, 1] initial = Inr (False, s')" ..
  from dispatch_failure_ends_call [OF f] f show ?thesis by blast
qed

text \<open>
  C3 as stated fails: after the \<open>FALSE\<close> for a \<open>RESERVED\<close> message, which has no case
  in \<open>MessageDone\<close>, a second call without \<open>AppProtocolInit\<close> dispatches a
  \<open>SOFT_RESET\<close>.
\<close>

theorem later_chunk_is_dispatched:
  "observed (feed_chunks example_header [[7], [1]] initial) =
     Inr ([False, True],
          [PushBuffer [0, 73, 79, 73, 79, 0, 1, 1], SoftReset, PushBuffer [1]],
          [7 # replicate 258 0, 1 # replicate 258 0])"
  by (simp add: observed_def run_defs ex_defs)

text \<open>
  C2, on the code: a type byte without a table entry is not rejected before line 285
  indexes the table with it. At the start of a message the call reads
  \<open>incoming_arg_size[rx_msg.type]\<close> past the end of the table.
\<close>

theorem undeclared_type_indexes_table:
  assumes "at_message_start s" and "rx_msg s \<noteq> []" and "MESSAGE_TYPE_LIMIT \<le> unat t"
  shows "AppProtocolHandleIncoming H (t # rest) s = Inl TableIndexOutOfRange"
proof -
  from assms(2) have "Suc 0 \<le> length (rx_msg s)"
    by (cases "rx_msg s") simp_all
  with assms show ?thesis
    by (simp add: HandleIncoming_nonempty loop_body_def copy_chunk_def memcpy_def
        change_state_def case_WAIT_TYPE_def table_at_def msg_type_def at_message_start_def
        Let_def)
qed

theorem undeclared_type_indexes_table_witness:
  "AppProtocolHandleIncoming example_header [16] initial = Inl TableIndexOutOfRange"
proof -
  have "at_message_start initial" "rx_msg initial \<noteq> []" "MESSAGE_TYPE_LIMIT \<le> unat (16 :: byte)"
    by (simp_all add: at_message_start_def initial_def MESSAGE_TYPE_LIMIT_def)
  then show ?thesis by (rule undeclared_type_indexes_table)
qed

section \<open>Feeding one whole message\<close>

lemma loop_end:
  "and_then (and_then r (\<lambda>(g, s2). Inr (g, [], s2)))
     (\<lambda>(go_on, data', s').
        if go_on then AppProtocolHandleIncoming H data' s' else Inr (False, s')) = r"
  by (cases r) (auto split: prod.splits)

lemma feed_message:
  assumes "at_message_start s" and "unat t < MESSAGE_TYPE_LIMIT"
    and "length args = incoming_arg_size H ! unat t"
    and "length var = IncomingVarArgSize H (t # args @ drop (1 + length args) (rx_msg s))"
    and "1 + length args + length var \<le> length (rx_msg s)"
  shows "AppProtocolHandleIncoming H (t # args @ var) s
           = MessageDone H (completed (t # args @ var) s)"
proof -
  have ne: "rx_msg s \<noteq> []" using assms(5) by auto
  have sz: "IncomingVarArgSize H (t # args @ drop (Suc (length args)) (rx_msg s)) = length var"
    using assms(4) by simp
  have t: "table_at (incoming_arg_size H) t = Inr (length args)"
    using assms(2,3) by (simp add: table_at_def)
  show ?thesis
  proof (cases "args = []"; cases "var = []")
    assume "args = []" "var = []"
    with assms(1,5) ne sz t show ?thesis
      by (simp add: HandleIncoming_nonempty loop_body_def copy_chunk_def memcpy_def
          change_state_def case_WAIT_TYPE_def case_WAIT_ARGS_def case_WAIT_VAR_ARGS_def
          completed_def Let_def msg_type_def loop_end at_message_start_def)
  next
    assume "args = []" "var \<noteq> []"
    with assms(1,5) ne sz t show ?thesis
      by (simp add: HandleIncoming_nonempty loop_body_def copy_chunk_def memcpy_def
          change_state_def case_WAIT_TYPE_def case_WAIT_ARGS_def case_WAIT_VAR_ARGS_def
          completed_def Let_def msg_type_def loop_end at_message_start_def)
  next
    assume "args \<noteq> []" "var = []"
    with assms(1,5) ne sz t show ?thesis
      by (simp add: HandleIncoming_nonempty loop_body_def copy_chunk_def memcpy_def
          change_state_def case_WAIT_TYPE_def case_WAIT_ARGS_def case_WAIT_VAR_ARGS_def
          completed_def Let_def msg_type_def loop_end at_message_start_def)
  next
    assume "args \<noteq> []" "var \<noteq> []"
    with assms(1,5) ne sz t show ?thesis
      by (simp add: HandleIncoming_nonempty loop_body_def copy_chunk_def memcpy_def
          change_state_def case_WAIT_TYPE_def case_WAIT_ARGS_def case_WAIT_VAR_ARGS_def
          completed_def Let_def msg_type_def loop_end at_message_start_def add.commute [of "length var"])
  qed
qed

subsection \<open>Where the decoder waits inside a message\<close>

text \<open>
  After the type byte the decoder waits for the fixed arguments when the table entry
  is not 0; after the fixed arguments it waits for the trailer when
  \<open>IncomingVarArgSize\<close> is not 0.
\<close>

lemma waits_after_type_byte:
  assumes "at_message_start s" and "rx_msg s \<noteq> []" and "unat t < MESSAGE_TYPE_LIMIT"
    and "incoming_arg_size H ! unat t \<noteq> 0"
  shows "AppProtocolHandleIncoming H [t] s =
     Inr (True, s\<lparr>rx_msg := t # drop 1 (rx_msg s), rx_buffer_cursor := 1,
                  rx_message_remaining := incoming_arg_size H ! unat t,
                  rx_message_state := WAIT_ARGS\<rparr>)"
proof -
  from assms(2) have "Suc 0 \<le> length (rx_msg s)"
    by (cases "rx_msg s") simp_all
  with assms show ?thesis
    by (simp add: HandleIncoming_nonempty loop_body_def copy_chunk_def memcpy_def
        change_state_def case_WAIT_TYPE_def table_at_def msg_type_def at_message_start_def
        Let_def)
qed

lemma waits_after_fixed_args:
  assumes "at_message_start s" and "unat t < MESSAGE_TYPE_LIMIT"
    and "length args = incoming_arg_size H ! unat t"
    and "IncomingVarArgSize H (t # args @ drop (1 + length args) (rx_msg s)) = v"
    and "v \<noteq> 0" and "1 + length args \<le> length (rx_msg s)"
  shows "AppProtocolHandleIncoming H (t # args) s =
     Inr (True, s\<lparr>rx_msg := t # args @ drop (1 + length args) (rx_msg s),
                  rx_buffer_cursor := 1 + length args, rx_message_remaining := v,
                  rx_message_state := WAIT_VAR_ARGS\<rparr>)"
proof -
  have ne: "rx_msg s \<noteq> []" using assms(6) by auto
  have sz: "IncomingVarArgSize H (t # args @ drop (Suc (length args)) (rx_msg s)) = v"
    using assms(4) by simp
  have t: "table_at (incoming_arg_size H) t = Inr (length args)"
    using assms(2,3) by (simp add: table_at_def)
  show ?thesis
  proof (cases "args = []")
    case True
    with assms(1,5,6) ne sz t show ?thesis
      by (simp add: HandleIncoming_nonempty loop_body_def copy_chunk_def memcpy_def
          change_state_def case_WAIT_TYPE_def case_WAIT_ARGS_def
          Let_def msg_type_def at_message_start_def)
  next
    case False
    with assms(1,5,6) ne sz t show ?thesis
      by (simp add: HandleIncoming_nonempty loop_body_def copy_chunk_def memcpy_def
          change_state_def case_WAIT_TYPE_def case_WAIT_ARGS_def
          Let_def msg_type_def at_message_start_def)
  qed
qed

text \<open>
  C10, on the code: the input \<open>[UART_DATA, uart = 0, size = 255]\<close> ends inside a
  message, with 256 trailer bytes to come. \<open>IncomingVarArgSize\<close> cuts \<open>255 + 1\<close> to 0,
  so the call dispatches the message at once and leaves the decoder at the start of a
  message, not where the next call would continue this one. With the uart index 200
  the same input makes the call return \<open>FALSE\<close>, from the \<open>CHECK\<close> of the dispatch,
  though the input ends inside the message. With size 254 the call returns \<open>TRUE\<close> and
  the decoder waits in \<open>WAIT_VAR_ARGS\<close> for 255 bytes, as it does for every size below
  255.
\<close>

theorem size_255_ends_message_before_trailer:
  "AppProtocolHandleIncoming example_header [12, 0, 255] initial =
     Inr (True, initial\<lparr>rx_msg := 12 # 0 # 255 # replicate 256 0,
                  trace := trace initial @ [UARTTransmit 0 (replicate 256 0) 256],
                  dispatched := [12 # 0 # 255 # replicate 256 0]\<rparr>) \<and>
   AppProtocolHandleIncoming example_header [12, 200, 255] initial =
     Inr (False, initial\<lparr>rx_msg := 12 # 200 # 255 # replicate 256 0,
                   trace := trace initial @ [log_printf ''Check failed: %s''],
                   dispatched := [12 # 200 # 255 # replicate 256 0]\<rparr>) \<and>
   AppProtocolHandleIncoming example_header [12, 0, 254] initial =
     Inr (True, initial\<lparr>rx_msg := 12 # 0 # 254 # replicate 256 0, rx_buffer_cursor := 3,
                  rx_message_remaining := 255, rx_message_state := WAIT_VAR_ARGS\<rparr>)"
  by (simp add: run_defs ex_defs)

section \<open>Dispatch\<close>

lemma MessageDone_False:
  "MessageDone H s = Inr (False, s') \<Longrightarrow>
     s' = s \<or> s' = call (log_printf ''Check failed: %s'') s"
  unfolding MessageDone_def Let_def
  by (auto simp: returning_TRUE_def and_then_Inr_iff dest!: CHECK_cases split: if_splits)

lemma MessageDone_wrong_magic:
  "msg_type (rx_msg s) = HARD_RESET \<Longrightarrow> args_field H hard_reset_magic (rx_msg s) \<noteq> IOIO_MAGIC H \<Longrightarrow>
     MessageDone H s = Inr (False, call (log_printf ''Check failed: %s'') s)"
  by (simp add: MessageDone_def CHECK_def)

lemma rx_msg_completed [simp]: "rx_msg (completed m s) = m @ drop (length m) (rx_msg s)"
  by (simp add: completed_def Let_def)

lemma IncomingVarArgSize_fixed: "t \<noteq> UART_DATA \<Longrightarrow> IncomingVarArgSize H (t # m) = 0"
  by (simp add: IncomingVarArgSize_def msg_type_def)

lemma feed_fixed_message:
  assumes "at_message_start s" and "unat t < MESSAGE_TYPE_LIMIT" and "t \<noteq> UART_DATA"
    and "length args = incoming_arg_size H ! unat t"
    and "1 + length args \<le> length (rx_msg s)"
  shows "AppProtocolHandleIncoming H (t # args @ rest) s =
     and_then (MessageDone H (completed (t # args) s)) (\<lambda>(ok, s1).
       if ok then AppProtocolHandleIncoming H rest s1 else Inr (False, s1))"
proof -
  have "AppProtocolHandleIncoming H (t # args @ []) s = MessageDone H (completed (t # args @ []) s)"
    using assms by (intro feed_message) (simp_all add: IncomingVarArgSize_fixed)
  then have "AppProtocolHandleIncoming H (t # args) s = MessageDone H (completed (t # args) s)"
    by simp
  with HandleIncoming_append [of H "t # args" rest s] show ?thesis by simp
qed

text \<open>
  C7. A \<open>HARD_RESET\<close> whose magic differs from \<open>IOIO_MAGIC\<close> makes \<open>MessageDone\<close> return
  \<open>FALSE\<close> with nothing but the log line: no \<open>HardReset\<close> call, the queue as it was.
  Fed to \<open>AppProtocolHandleIncoming\<close> at the start of a message, such a message makes the
  call return \<open>FALSE\<close>, whatever follows it in the chunk. In general, whenever
  \<open>MessageDone\<close> returns \<open>FALSE\<close>, the state is the one it was called in, or that state
  with the log line of the failed \<open>CHECK\<close>: no hardware call and no echo.
\<close>

theorem failed_check_has_no_effect:
  "(\<forall>s'. MessageDone H s = Inr (False, s') \<longrightarrow>
      s' = s \<or> s' = call (log_printf ''Check failed: %s'') s) \<and>
   (msg_type (rx_msg s) = HARD_RESET \<and> args_field H hard_reset_magic (rx_msg s) \<noteq> IOIO_MAGIC H
      \<longrightarrow> MessageDone H s = Inr (False, call (log_printf ''Check failed: %s'') s)) \<and>
   (\<forall>args rest. at_message_start s \<and> length args = incoming_arg_size H ! unat HARD_RESET \<and>
      1 + length args \<le> length (rx_msg s) \<and>
      args_field H hard_reset_magic (HARD_RESET # args @ drop (1 + length args) (rx_msg s))
        \<noteq> IOIO_MAGIC H \<longrightarrow>
      AppProtocolHandleIncoming H (HARD_RESET # args @ rest) s =
        Inr (False, call (log_printf ''Check failed: %s'') (completed (HARD_RESET # args) s)))"
proof (intro conjI allI impI)
  fix s'
  assume "MessageDone H s = Inr (False, s')"
  then show "s' = s \<or> s' = call (log_printf ''Check failed: %s'') s"
    by (rule MessageDone_False)
next
  assume "msg_type (rx_msg s) = HARD_RESET \<and>
          args_field H hard_reset_magic (rx_msg s) \<noteq> IOIO_MAGIC H"
  then show "MessageDone H s = Inr (False, call (log_printf ''Check failed: %s'') s)"
    by (simp add: MessageDone_wrong_magic)
next
  fix args rest :: "byte list"
  assume a: "at_message_start s \<and> length args = incoming_arg_size H ! unat HARD_RESET \<and>
      1 + length args \<le> length (rx_msg s) \<and>
      args_field H hard_reset_magic (HARD_RESET # args @ drop (1 + length args) (rx_msg s))
        \<noteq> IOIO_MAGIC H"
  have "MessageDone H (completed (HARD_RESET # args) s) =
      Inr (False, call (log_printf ''Check failed: %s'') (completed (HARD_RESET # args) s))"
    using a by (intro MessageDone_wrong_magic) (auto simp: msg_type_def)
  moreover have "AppProtocolHandleIncoming H (HARD_RESET # args @ rest) s =
     and_then (MessageDone H (completed (HARD_RESET # args) s)) (\<lambda>(ok, s1).
       if ok then AppProtocolHandleIncoming H rest s1 else Inr (False, s1))"
    using a by (intro feed_fixed_message)
      (simp_all add: HARD_RESET_def UART_DATA_def MESSAGE_TYPE_LIMIT_def)
  ultimately show "AppProtocolHandleIncoming H (HARD_RESET # args @ rest) s =
        Inr (False, call (log_printf ''Check failed: %s'') (completed (HARD_RESET # args) s))"
    by simp
qed

theorem failed_check_has_no_effect_witness:
  "\<exists>s'. AppProtocolHandleIncoming example_header [0, 1, 2, 3, 4] initial = Inr (False, s') \<and>
     tx_queue s' = tx_queue initial \<and>
     trace s' = trace initial @ [log_printf ''Check failed: %s''] \<and>
     MessageDone example_header (completed [0, 1, 2, 3, 4] initial) = Inr (False, s')"
proof -
  note inst = failed_check_has_no_effect [of example_header]
  let ?c = "completed [0, 1, 2, 3, 4] initial"
  have pre: "at_message_start initial \<and>
      length [1, 2, 3, 4 :: byte] = incoming_arg_size example_header ! unat HARD_RESET \<and>
      1 + length [1, 2, 3, 4 :: byte] \<le> length (rx_msg initial) \<and>
      args_field example_header hard_reset_magic
        (HARD_RESET # [1, 2, 3, 4] @ drop (1 + length [1, 2, 3, 4 :: byte]) (rx_msg initial))
        \<noteq> IOIO_MAGIC example_header"
    by (simp add: at_message_start_def ex_defs)
  with inst [of initial]
  have "AppProtocolHandleIncoming example_header (HARD_RESET # [1, 2, 3, 4] @ []) initial =
        Inr (False, call (log_printf ''Check failed: %s'') (completed (HARD_RESET # [1, 2, 3, 4]) initial))"
    by blast
  then have a: "AppProtocolHandleIncoming example_header [0, 1, 2, 3, 4] initial =
        Inr (False, call (log_printf ''Check failed: %s'') ?c)"
    by (simp add: HARD_RESET_def)
  have "msg_type (rx_msg ?c) = HARD_RESET \<and>
        args_field example_header hard_reset_magic (rx_msg ?c) \<noteq> IOIO_MAGIC example_header"
    by (simp add: ex_defs)
  with inst [of ?c]
  have b: "MessageDone example_header ?c = Inr (False, call (log_printf ''Check failed: %s'') ?c)"
    by blast
  from a b show ?thesis
    by (simp add: call_def completed_def Let_def)
qed

section \<open>Echo\<close>

lemma echoed_tables:
  "t \<in> set echoed \<Longrightarrow>
     outgoing_arg_size H ! unat t = incoming_arg_size H ! unat t \<and>
     unat t < MESSAGE_TYPE_LIMIT \<and> t \<noteq> UART_DATA \<and> t \<noteq> HARD_RESET"
  by (auto simp: echoed_def incoming_arg_size_def outgoing_arg_size_def MESSAGE_TYPE_LIMIT_def
      SOFT_RESET_def SET_PIN_DIGITAL_OUT_def SET_PIN_DIGITAL_IN_def SET_CHANGE_NOTIFY_def
      SET_PIN_ANALOG_IN_def UART_CONFIG_def SET_PIN_UART_RX_def SET_PIN_UART_TX_def
      UART_DATA_def HARD_RESET_def)

lemma OutgoingMessageLength_echoed:
  "msg_type m \<in> set echoed \<Longrightarrow>
     OutgoingMessageLength H m = Inr ((1 + incoming_arg_size H ! unat (msg_type m)) mod 256)"
  by (simp add: OutgoingMessageLength_def table_at_def echoed_tables)

lemma Echo_call_Inr:
  assumes "Echo H (call c s) = Inr s1" and "OutgoingMessageLength H (rx_msg s) = Inr n"
  shows "trace s1 = trace s @ [c, PushBuffer (take n (rx_msg s))] \<and>
         contents (tx_queue s1) = contents (tx_queue s) @ take n (rx_msg s) \<and>
         capacity (tx_queue s1) = capacity (tx_queue s) \<and>
         read_cursor (tx_queue s1) = read_cursor (tx_queue s)"
  using assms
  by (auto simp: Echo_def AppProtocolSendMessage_def bytes_at_def ByteQueuePushBuffer_def
      call_def and_then_Inr_iff split: if_splits)

lemmas type_defs = HARD_RESET_def SOFT_RESET_def SET_PIN_DIGITAL_OUT_def
  SET_DIGITAL_OUT_LEVEL_def SET_PIN_DIGITAL_IN_def SET_CHANGE_NOTIFY_def SET_PIN_PWM_def
  SET_PWM_DUTY_CYCLE_def SET_PWM_PERIOD_def SET_PIN_ANALOG_IN_def UART_DATA_def
  UART_CONFIG_def SET_PIN_UART_RX_def SET_PIN_UART_TX_def

lemma MessageDone_SOFT_RESET:
  "msg_type (rx_msg s) = SOFT_RESET \<Longrightarrow>
     MessageDone H s = returning_TRUE (Echo H (call SoftReset s))"
  by (simp add: MessageDone_def type_defs)

lemma MessageDone_SET_PIN_DIGITAL_OUT:
  "msg_type (rx_msg s) = SET_PIN_DIGITAL_OUT \<Longrightarrow>
     MessageDone H s =
       CHECK (args_field H set_pin_digital_out_pin (rx_msg s) < NUM_PINS H) s
         (returning_TRUE (Echo H (call (SetPinDigitalOut
            (args_field H set_pin_digital_out_pin (rx_msg s))
            (args_field H set_pin_digital_out_value (rx_msg s))
            (args_field H set_pin_digital_out_open_drain (rx_msg s))) s)))"
  by (simp add: MessageDone_def type_defs)

lemma MessageDone_SET_PIN_DIGITAL_IN:
  "msg_type (rx_msg s) = SET_PIN_DIGITAL_IN \<Longrightarrow>
     MessageDone H s =
       CHECK (args_field H set_pin_digital_in_pin (rx_msg s) < NUM_PINS H) s
         (CHECK (args_field H set_pin_digital_in_pull (rx_msg s) < 3) s
           (returning_TRUE (Echo H (call (SetPinDigitalIn
              (args_field H set_pin_digital_in_pin (rx_msg s))
              (args_field H set_pin_digital_in_pull (rx_msg s))) s))))"
  by (simp add: MessageDone_def type_defs)

lemma MessageDone_SET_CHANGE_NOTIFY:
  "msg_type (rx_msg s) = SET_CHANGE_NOTIFY \<Longrightarrow>
     MessageDone H s =
       CHECK (args_field H set_change_notify_pin (rx_msg s) < NUM_PINS H) s
         (and_then (Echo H (call (SetChangeNotify
              (args_field H set_change_notify_pin (rx_msg s))
              (args_field H set_change_notify_cn (rx_msg s))) s))
            (\<lambda>s1. Inr (True,
               if args_field H set_change_notify_cn (rx_msg s) \<noteq> 0
               then call (ReportDigitalInStatus
                      (args_field H set_change_notify_pin (rx_msg s))) s1
               else s1)))"
  by (simp add: MessageDone_def type_defs)

lemma MessageDone_SET_PIN_ANALOG_IN:
  "msg_type (rx_msg s) = SET_PIN_ANALOG_IN \<Longrightarrow>
     MessageDone H s =
       CHECK (args_field H set_pin_analog_in_pin (rx_msg s) < NUM_PINS H) s
         (returning_TRUE (Echo H (call (SetPinAnalogIn
            (args_field H set_pin_analog_in_pin (rx_msg s))) s)))"
  by (simp add: MessageDone_def type_defs)

lemma MessageDone_UART_DATA:
  "msg_type (rx_msg s) = UART_DATA \<Longrightarrow>
     MessageDone H s =
       CHECK (args_field H uart_data_uart_num (rx_msg s) < NUM_UARTS H) s
         (Inr (True, call (UARTTransmit (args_field H uart_data_uart_num (rx_msg s))
            (take (args_field H uart_data_size (rx_msg s) + 1)
               (drop (uart_data_data H) (rx_msg s)))
            (args_field H uart_data_size (rx_msg s) + 1)) s))"
  by (simp add: MessageDone_def type_defs)

lemma MessageDone_UART_CONFIG:
  "msg_type (rx_msg s) = UART_CONFIG \<Longrightarrow>
     MessageDone H s =
       CHECK (args_field H uart_config_uart_num (rx_msg s) < NUM_UARTS H) s
         (CHECK (args_field H uart_config_parity (rx_msg s) < 3) s
           (and_then (Echo H (call (UARTConfig
                (args_field H uart_config_uart_num (rx_msg s))
                (args_field H uart_config_rate (rx_msg s))
                (args_field H uart_config_speed4x (rx_msg s))
                (args_field H uart_config_two_stop_bits (rx_msg s))
                (args_field H uart_config_parity (rx_msg s))) s))
              (\<lambda>s1. Inr (True, call (UARTReportTxStatus
                 (args_field H uart_config_uart_num (rx_msg s))) s1))))"
  by (simp add: MessageDone_def type_defs)

lemma MessageDone_SET_PIN_UART_RX:
  "msg_type (rx_msg s) = SET_PIN_UART_RX \<Longrightarrow>
     MessageDone H s =
       CHECK (args_field H set_pin_uart_rx_pin (rx_msg s) < NUM_PINS H) s
         (CHECK (args_field H set_pin_uart_rx_uart_num (rx_msg s) < NUM_UARTS H) s
           (returning_TRUE (Echo H (call (SetPinUartRx
              (args_field H set_pin_uart_rx_pin (rx_msg s))
              (args_field H set_pin_uart_rx_uart_num (rx_msg s))
              (args_field H set_pin_uart_rx_enable (rx_msg s))) s))))"
  by (simp add: MessageDone_def type_defs)

lemma MessageDone_SET_PIN_UART_TX:
  "msg_type (rx_msg s) = SET_PIN_UART_TX \<Longrightarrow>
     MessageDone H s =
       CHECK (args_field H set_pin_uart_tx_pin (rx_msg s) < NUM_PINS H) s
         (CHECK (args_field H set_pin_uart_tx_uart_num (rx_msg s) < NUM_UARTS H) s
           (returning_TRUE (Echo H (call (SetPinUartTx
              (args_field H set_pin_uart_tx_pin (rx_msg s))
              (args_field H set_pin_uart_tx_uart_num (rx_msg s))
              (args_field H set_pin_uart_tx_enable (rx_msg s))) s))))"
  by (simp add: MessageDone_def type_defs)

lemmas MessageDone_echoed = MessageDone_SOFT_RESET MessageDone_SET_PIN_DIGITAL_OUT
  MessageDone_SET_PIN_DIGITAL_IN MessageDone_SET_CHANGE_NOTIFY MessageDone_SET_PIN_ANALOG_IN
  MessageDone_UART_CONFIG MessageDone_SET_PIN_UART_RX MessageDone_SET_PIN_UART_TX

lemma call_fields [simp]:
  "trace (call c s) = trace s @ [c]" "tx_queue (call c s) = tx_queue s"
  "rx_msg (call c s) = rx_msg s"
  by (simp_all add: call_def)

lemma MessageDone_echo:
  assumes "msg_type (rx_msg s) \<in> set echoed" and "MessageDone H s = Inr (True, s')"
    and "OutgoingMessageLength H (rx_msg s) = Inr n"
  shows "filter is_push (new_calls s s') = [PushBuffer (take n (rx_msg s))] \<and>
         filter is_report (takeWhile (\<lambda>c. \<not> is_push c) (new_calls s s')) = [] \<and>
         take (length (trace s)) (trace s') = trace s \<and>
         contents (tx_queue s') = contents (tx_queue s) @ take n (rx_msg s)"
  using assms unfolding new_calls_def echoed_def
  by (auto simp: MessageDone_echoed returning_TRUE_def and_then_Inr_iff
      dest!: CHECK_cases Echo_call_Inr [where n = n] split: if_splits)

lemma completed_fields [simp]:
  "trace (completed m s) = trace s" "tx_queue (completed m s) = tx_queue s"
  by (simp_all add: completed_def Let_def)

lemma new_calls_completed [simp]: "new_calls (completed m s) s' = new_calls s s'"
  by (simp add: new_calls_def)

text \<open>
  C5. For every echoed type, a message of that type (the type byte and the fixed
  arguments, at most 254 of them so that the length fits \<open>OutgoingMessageLength\<close>'s
  \<open>BYTE\<close>), fed at the start of a message and dispatched with success, pushes on
  \<open>tx_queue\<close> exactly once, and what it pushes are the bytes received. No report call
  (\<open>ReportDigitalInStatus\<close>, \<open>UARTReportTxStatus\<close>) comes before that push. The calls
  made before stay in the trace, and the queue grows by exactly the message.
\<close>

theorem echo_once_before_reports:
  assumes "at_message_start s" and "t \<in> set echoed"
    and "length args = incoming_arg_size H ! unat t" and "length args < 255"
    and "1 + length args \<le> length (rx_msg s)"
    and "AppProtocolHandleIncoming H (t # args) s = Inr (True, s')"
  shows "filter is_push (new_calls s s') = [PushBuffer (t # args)] \<and>
         filter is_report (takeWhile (\<lambda>c. \<not> is_push c) (new_calls s s')) = [] \<and>
         take (length (trace s)) (trace s') = trace s \<and>
         contents (tx_queue s') = contents (tx_queue s) @ t # args"
proof -
  let ?c = "completed (t # args) s"
  note e = echoed_tables [OF assms(2), of H]
  have "AppProtocolHandleIncoming H (t # args @ []) s = MessageDone H (completed (t # args @ []) s)"
    using assms e by (intro feed_message) (simp_all add: IncomingVarArgSize_fixed)
  with assms(6) have md: "MessageDone H ?c = Inr (True, s')" by simp
  have ty: "msg_type (rx_msg ?c) = t" by (simp add: msg_type_def)
  have "OutgoingMessageLength H (rx_msg ?c) = Inr ((1 + incoming_arg_size H ! unat t) mod 256)"
    using OutgoingMessageLength_echoed [of "rx_msg ?c" H] assms(2) ty by simp
  with assms(3,4) have len: "OutgoingMessageLength H (rx_msg ?c) = Inr (1 + length args)"
    by simp
  have tk: "take (1 + length args) (rx_msg ?c) = t # args" by simp
  from MessageDone_echo [OF _ md len] ty assms(2) tk show ?thesis by simp
qed

theorem echo_once_before_reports_witness:
  "\<exists>s'. AppProtocolHandleIncoming example_header [5, 5, 1] initial = Inr (True, s') \<and>
     new_calls initial s' = [SetChangeNotify 5 1, PushBuffer [5, 5, 1], ReportDigitalInStatus 5] \<and>
     filter is_push (new_calls initial s') = [PushBuffer [5, 5, 1]] \<and>
     filter is_report (takeWhile (\<lambda>c. \<not> is_push c) (new_calls initial s')) = [] \<and>
     contents (tx_queue s') = contents (tx_queue initial) @ [5, 5, 1]"
proof -
  have "\<exists>s'. AppProtocolHandleIncoming example_header [5, 5, 1] initial = Inr (True, s') \<and>
     new_calls initial s' = [SetChangeNotify 5 1, PushBuffer [5, 5, 1], ReportDigitalInStatus 5]"
    by (simp add: run_defs ex_defs new_calls_def)
  then obtain s' where
    r: "AppProtocolHandleIncoming example_header [5, 5, 1] initial = Inr (True, s')" and
    n: "new_calls initial s' = [SetChangeNotify 5 1, PushBuffer [5, 5, 1], ReportDigitalInStatus 5]"
    by blast
  have "at_message_start initial" "(5 :: byte) \<in> set echoed"
    "length [5, 1 :: byte] = incoming_arg_size example_header ! unat (5 :: byte)"
    "length [5, 1 :: byte] < 255" "1 + length [5, 1 :: byte] \<le> length (rx_msg initial)"
    by (simp_all add: at_message_start_def echoed_def ex_defs)
  from echo_once_before_reports [OF this r] r n show ?thesis by blast
qed

text \<open>
  C9. At the index of every echoed type the incoming and the outgoing table hold the
  same entry. Such a type has no variable arguments, so the decoder has received
  1 + the incoming entry bytes when it dispatches, and \<open>OutgoingMessageLength\<close> is
  1 + the same entry (as a \<open>BYTE\<close>). With an entry below 255, room in the queue and
  the message within \<open>rx_msg\<close>, \<open>Echo\<close> pushes exactly those first bytes of \<open>rx_msg\<close>.
\<close>

theorem echo_length_is_received_length:
  "(\<forall>t \<in> set echoed. incoming_arg_size H ! unat t = outgoing_arg_size H ! unat t) \<and>
   (\<forall>m. msg_type m \<in> set echoed \<longrightarrow>
      IncomingVarArgSize H m = 0 \<and>
      OutgoingMessageLength H m = Inr ((1 + incoming_arg_size H ! unat (msg_type m)) mod 256)) \<and>
   (\<forall>s n. msg_type (rx_msg s) \<in> set echoed \<and>
      n = incoming_arg_size H ! unat (msg_type (rx_msg s)) \<and> n < 255 \<and>
      length (contents (tx_queue s)) + (1 + n) \<le> capacity (tx_queue s) \<and>
      1 + n \<le> length (rx_msg s) \<longrightarrow>
      Echo H s = Inr (call (PushBuffer (take (1 + n) (rx_msg s)))
        (s\<lparr>tx_queue := (tx_queue s)\<lparr>contents :=
             contents (tx_queue s) @ take (1 + n) (rx_msg s)\<rparr>\<rparr>)))"
proof (intro conjI ballI allI impI)
  fix t :: byte
  assume "t \<in> set echoed"
  then show "incoming_arg_size H ! unat t = outgoing_arg_size H ! unat t"
    by (simp add: echoed_tables)
next
  fix m :: "byte list"
  assume m: "msg_type m \<in> set echoed"
  then show "IncomingVarArgSize H m = 0"
    using echoed_tables [of "msg_type m" H] by (simp add: IncomingVarArgSize_def)
  from m show "OutgoingMessageLength H m
      = Inr ((1 + incoming_arg_size H ! unat (msg_type m)) mod 256)"
    by (rule OutgoingMessageLength_echoed)
next
  fix s :: state and n
  assume a: "msg_type (rx_msg s) \<in> set echoed \<and>
      n = incoming_arg_size H ! unat (msg_type (rx_msg s)) \<and> n < 255 \<and>
      length (contents (tx_queue s)) + (1 + n) \<le> capacity (tx_queue s) \<and>
      1 + n \<le> length (rx_msg s)"
  then have "OutgoingMessageLength H (rx_msg s) = Inr (1 + n)"
    using OutgoingMessageLength_echoed [of "rx_msg s" H] by auto
  with a show "Echo H s = Inr (call (PushBuffer (take (1 + n) (rx_msg s)))
        (s\<lparr>tx_queue := (tx_queue s)\<lparr>contents :=
             contents (tx_queue s) @ take (1 + n) (rx_msg s)\<rparr>\<rparr>))"
    by (auto simp: Echo_def AppProtocolSendMessage_def bytes_at_def ByteQueuePushBuffer_def)
qed

theorem echo_length_is_received_length_witness:
  "incoming_arg_size example_header ! unat SET_PIN_DIGITAL_OUT =
     outgoing_arg_size example_header ! unat SET_PIN_DIGITAL_OUT \<and>
   IncomingVarArgSize example_header [2, 3, 1, 0] = 0 \<and>
   OutgoingMessageLength example_header [2, 3, 1, 0] = Inr 4 \<and>
   Echo example_header (completed [2, 3, 1, 0] initial) =
     Inr (call (PushBuffer [2, 3, 1, 0])
       ((completed [2, 3, 1, 0] initial)\<lparr>tx_queue := (tx_queue initial)\<lparr>contents :=
           [0, 73, 79, 73, 79, 0, 1, 1, 2, 3, 1, 0]\<rparr>\<rparr>))"
proof -
  note inst = echo_length_is_received_length [of example_header]
  let ?c = "completed [2, 3, 1, 0] initial"
  have e: "SET_PIN_DIGITAL_OUT \<in> set echoed" "msg_type [2, 3, 1, 0] \<in> set echoed"
    by (simp_all add: echoed_def msg_type_def type_defs)
  from inst e(1) have a: "incoming_arg_size example_header ! unat SET_PIN_DIGITAL_OUT =
     outgoing_arg_size example_header ! unat SET_PIN_DIGITAL_OUT"
    by blast
  from inst e(2) have "IncomingVarArgSize example_header [2, 3, 1, 0] = 0 \<and>
      OutgoingMessageLength example_header [2, 3, 1, 0]
        = Inr ((1 + incoming_arg_size example_header ! unat (msg_type [2, 3, 1, 0 :: byte])) mod 256)"
    by blast
  then have b: "IncomingVarArgSize example_header [2, 3, 1, 0] = 0"
    "OutgoingMessageLength example_header [2, 3, 1, 0] = Inr 4"
    by (simp_all add: ex_defs)
  have "msg_type (rx_msg ?c) \<in> set echoed \<and>
      3 = incoming_arg_size example_header ! unat (msg_type (rx_msg ?c)) \<and> (3 :: nat) < 255 \<and>
      length (contents (tx_queue ?c)) + (1 + 3) \<le> capacity (tx_queue ?c) \<and>
      1 + 3 \<le> length (rx_msg ?c)"
    by (simp add: echoed_def ex_defs)
  with inst have "Echo example_header ?c = Inr (call (PushBuffer (take (1 + 3) (rx_msg ?c)))
        (?c\<lparr>tx_queue := (tx_queue ?c)\<lparr>contents :=
             contents (tx_queue ?c) @ take (1 + 3) (rx_msg ?c)\<rparr>\<rparr>))"
    by blast
  then have c: "Echo example_header ?c = Inr (call (PushBuffer [2, 3, 1, 0])
       (?c\<lparr>tx_queue := (tx_queue initial)\<lparr>contents := [0, 73, 79, 73, 79, 0, 1, 1, 2, 3, 1, 0]\<rparr>\<rparr>))"
    by (simp add: initial_def)
  from a b c show ?thesis by simp
qed

section \<open>The variable trailer\<close>

lemma IncomingVarArgSize_UART_DATA:
  "msg_type m = UART_DATA \<Longrightarrow>
     IncomingVarArgSize H m = (args_field H uart_data_size m + 1) mod 256"
  by (simp add: IncomingVarArgSize_def)

text \<open>
  C4, on the code: \<open>IncomingVarArgSize\<close> returns \<open>size + 1\<close> as a \<open>BYTE\<close>. For a size
  field of 0 to 254 that is \<open>size + 1\<close>; for 255 it is 0, so the decoder reads no trailer
  at all and dispatches at once, while \<open>MessageDone\<close> passes \<open>size + 1 = 256\<close> to
  \<open>UARTTransmit\<close>.
\<close>

theorem trailer_size_wraps_at_255:
  assumes "msg_type m = UART_DATA" and "args_field H uart_data_size m \<le> 255"
  shows "IncomingVarArgSize H m =
     (if args_field H uart_data_size m = 255 then 0 else args_field H uart_data_size m + 1)"
  using assms by (auto simp: IncomingVarArgSize_UART_DATA)

theorem trailer_size_wraps_at_255_witness:
  "IncomingVarArgSize example_header [12, 0, 255] = 0 \<and>
   IncomingVarArgSize example_header [12, 0, 254] = 255 \<and>
   observed (feed_chunks example_header [[12, 0, 255]] initial) =
     Inr ([True],
          [PushBuffer [0, 73, 79, 73, 79, 0, 1, 1], UARTTransmit 0 (replicate 256 0) 256],
          [12 # 0 # 255 # replicate 256 0])"
proof -
  have "msg_type [12, 0, 255] = UART_DATA"
    "args_field example_header uart_data_size [12, 0, 255] \<le> 255"
    "args_field example_header uart_data_size [12, 0, 255] = 255"
    by (simp_all add: ex_defs)
  with trailer_size_wraps_at_255 [of "[12, 0, 255]" example_header]
  have a: "IncomingVarArgSize example_header [12, 0, 255] = 0"
    by simp
  have "msg_type [12, 0, 254] = UART_DATA"
    "args_field example_header uart_data_size [12, 0, 254] \<le> 255"
    "args_field example_header uart_data_size [12, 0, 254] = 254"
    by (simp_all add: ex_defs)
  with trailer_size_wraps_at_255 [of "[12, 0, 254]" example_header]
  have b: "IncomingVarArgSize example_header [12, 0, 254] = 255"
    by simp
  have "observed (feed_chunks example_header [[12, 0, 255]] initial) =
     Inr ([True],
          [PushBuffer [0, 73, 79, 73, 79, 0, 1, 1], UARTTransmit 0 (replicate 256 0) 256],
          [12 # 0 # 255 # replicate 256 0])"
    by (simp add: observed_def run_defs ex_defs)
  with a b show ?thesis by simp
qed

lemma feed_UART_DATA:
  assumes "at_message_start s"
    and "length args = incoming_arg_size H ! unat UART_DATA"
    and "args_field H uart_data_size (UART_DATA # args @ drop (1 + length args) (rx_msg s)) = n"
    and "n < 255" and "length trailer = n + 1"
    and "1 + length args + length trailer \<le> length (rx_msg s)"
  shows "AppProtocolHandleIncoming H (UART_DATA # args @ trailer) s
           = MessageDone H (completed (UART_DATA # args @ trailer) s)"
  using assms
  by (intro feed_message)
     (simp_all add: IncomingVarArgSize_UART_DATA msg_type_def UART_DATA_def MESSAGE_TYPE_LIMIT_def)

text \<open>
  What holds of the code: \<open>MessageDone\<close> on a \<open>UART_DATA\<close> message whose uart index is
  below \<open>NUM_UARTS\<close> returns \<open>TRUE\<close> after exactly one call, \<open>UARTTransmit\<close>, with the
  uart index, the \<open>size + 1\<close> bytes at \<open>rx_msg.args.uart_data.data\<close> and the length
  \<open>size + 1\<close>; it sends no echo. Through the decoder: when the data follow the fixed
  arguments in the struct and the size field \<open>n\<close> is below 255, feeding the type
  byte, the fixed arguments and \<open>n + 1\<close> trailer bytes ends in that one call, and the
  bytes it is given are the trailer as received.
\<close>

lemma uart_data_transmit:
  "(msg_type (rx_msg s) = UART_DATA \<and>
    args_field H uart_data_uart_num (rx_msg s) < NUM_UARTS H \<longrightarrow>
      MessageDone H s =
        Inr (True, call (UARTTransmit (args_field H uart_data_uart_num (rx_msg s))
           (take (args_field H uart_data_size (rx_msg s) + 1)
              (drop (uart_data_data H) (rx_msg s)))
           (args_field H uart_data_size (rx_msg s) + 1)) s)) \<and>
   (\<forall>args trailer n u.
      at_message_start s \<and> length args = incoming_arg_size H ! unat UART_DATA \<and>
      uart_data_data H = 1 + length args \<and>
      args_field H uart_data_size (UART_DATA # args @ drop (1 + length args) (rx_msg s)) = n \<and>
      args_field H uart_data_size (rx_msg (completed (UART_DATA # args @ trailer) s)) = n \<and>
      args_field H uart_data_uart_num (rx_msg (completed (UART_DATA # args @ trailer) s)) = u \<and>
      u < NUM_UARTS H \<and> n < 255 \<and> length trailer = n + 1 \<and>
      1 + length args + length trailer \<le> length (rx_msg s) \<longrightarrow>
      AppProtocolHandleIncoming H (UART_DATA # args @ trailer) s =
        Inr (True, call (UARTTransmit u trailer (n + 1))
                     (completed (UART_DATA # args @ trailer) s)))"
proof (intro conjI allI impI)
  assume "msg_type (rx_msg s) = UART_DATA \<and>
    args_field H uart_data_uart_num (rx_msg s) < NUM_UARTS H"
  then show "MessageDone H s =
        Inr (True, call (UARTTransmit (args_field H uart_data_uart_num (rx_msg s))
           (take (args_field H uart_data_size (rx_msg s) + 1)
              (drop (uart_data_data H) (rx_msg s)))
           (args_field H uart_data_size (rx_msg s) + 1)) s)"
    by (simp add: MessageDone_UART_DATA CHECK_def)
next
  fix args trailer :: "byte list" and n u :: nat
  let ?c = "completed (UART_DATA # args @ trailer) s"
  assume a: "at_message_start s \<and> length args = incoming_arg_size H ! unat UART_DATA \<and>
      uart_data_data H = 1 + length args \<and>
      args_field H uart_data_size (UART_DATA # args @ drop (1 + length args) (rx_msg s)) = n \<and>
      args_field H uart_data_size (rx_msg ?c) = n \<and>
      args_field H uart_data_uart_num (rx_msg ?c) = u \<and>
      u < NUM_UARTS H \<and> n < 255 \<and> length trailer = n + 1 \<and>
      1 + length args + length trailer \<le> length (rx_msg s)"
  then have feed: "AppProtocolHandleIncoming H (UART_DATA # args @ trailer) s = MessageDone H ?c"
    by (intro feed_UART_DATA [where n = n]) auto
  have ty: "msg_type (rx_msg ?c) = UART_DATA"
    by (simp add: msg_type_def)
  from a have sz: "args_field H uart_data_size (rx_msg ?c) = n"
    and un: "args_field H uart_data_uart_num (rx_msg ?c) = u" and u: "u < NUM_UARTS H"
    by blast+
  have tr: "take (n + 1) (drop (uart_data_data H) (rx_msg ?c)) = trailer"
    using a by auto
  have "MessageDone H ?c = Inr (True, call (UARTTransmit u trailer (n + 1)) ?c)"
    unfolding MessageDone_UART_DATA [OF ty] sz un tr using u by (simp add: CHECK_def)
  with feed show "AppProtocolHandleIncoming H (UART_DATA # args @ trailer) s =
        Inr (True, call (UARTTransmit u trailer (n + 1)) ?c)"
    by simp
qed

lemma uart_data_transmit_example:
  "AppProtocolHandleIncoming example_header [12, 0, 2, 97, 98, 99] initial =
     Inr (True, call (UARTTransmit 0 [97, 98, 99] 3)
                  (completed [12, 0, 2, 97, 98, 99] initial)) \<and>
   MessageDone example_header (completed [12, 0, 2, 97, 98, 99] initial) =
     Inr (True, call (UARTTransmit 0 [97, 98, 99] 3)
                  (completed [12, 0, 2, 97, 98, 99] initial)) \<and>
   new_calls initial (call (UARTTransmit 0 [97, 98, 99] 3)
                  (completed [12, 0, 2, 97, 98, 99] initial)) = [UARTTransmit 0 [97, 98, 99] 3]"
proof -
  let ?c = "completed (UART_DATA # [0, 2] @ [97, 98, 99]) initial"
  note inst = uart_data_transmit [of _ example_header]
  have "at_message_start initial \<and>
      length [0, 2 :: byte] = incoming_arg_size example_header ! unat UART_DATA \<and>
      uart_data_data example_header = 1 + length [0, 2 :: byte] \<and>
      args_field example_header uart_data_size
        (UART_DATA # [0, 2] @ drop (1 + length [0, 2 :: byte]) (rx_msg initial)) = 2 \<and>
      args_field example_header uart_data_size (rx_msg ?c) = 2 \<and>
      args_field example_header uart_data_uart_num (rx_msg ?c) = 0 \<and>
      0 < NUM_UARTS example_header \<and> (2 :: nat) < 255 \<and> length [97, 98, 99 :: byte] = 2 + 1 \<and>
      1 + length [0, 2 :: byte] + length [97, 98, 99 :: byte] \<le> length (rx_msg initial)"
    by (simp add: at_message_start_def ex_defs)
  with inst [of initial]
  have "AppProtocolHandleIncoming example_header (UART_DATA # [0, 2] @ [97, 98, 99]) initial =
        Inr (True, call (UARTTransmit 0 [97, 98, 99] (2 + 1)) ?c)"
    by blast
  then have a: "AppProtocolHandleIncoming example_header [12, 0, 2, 97, 98, 99] initial =
     Inr (True, call (UARTTransmit 0 [97, 98, 99] 3) (completed [12, 0, 2, 97, 98, 99] initial))"
    by (simp add: UART_DATA_def)
  have "msg_type (rx_msg ?c) = UART_DATA \<and>
    args_field example_header uart_data_uart_num (rx_msg ?c) < NUM_UARTS example_header"
    by (simp add: ex_defs)
  with inst [of ?c]
  have "MessageDone example_header ?c =
        Inr (True, call (UARTTransmit (args_field example_header uart_data_uart_num (rx_msg ?c))
           (take (args_field example_header uart_data_size (rx_msg ?c) + 1)
              (drop (uart_data_data example_header) (rx_msg ?c)))
           (args_field example_header uart_data_size (rx_msg ?c) + 1)) ?c)"
    by blast
  moreover have "args_field example_header uart_data_uart_num (rx_msg ?c) = 0"
    "args_field example_header uart_data_size (rx_msg ?c) = 2"
    "take (2 + 1) (drop (uart_data_data example_header) (rx_msg ?c)) = [97, 98, 99]"
    by (simp_all add: ex_defs)
  ultimately have b: "MessageDone example_header (completed [12, 0, 2, 97, 98, 99] initial) =
     Inr (True, call (UARTTransmit 0 [97, 98, 99] 3) (completed [12, 0, 2, 97, 98, 99] initial))"
    by (simp add: UART_DATA_def)
  from a b show ?thesis by (simp add: new_calls_def)
qed

text \<open>
  C6, on the code: for a \<open>UART_DATA\<close> message with uart 0, size 255 and the 256 data
  bytes 7, 9, ..., 9 the transmit call does not receive the trailer.
  \<open>IncomingVarArgSize\<close> cuts \<open>255 + 1\<close> to 0, so \<open>MessageDone\<close> runs after the third
  byte and passes \<open>UARTTransmit\<close> the 256 bytes that \<open>rx_msg\<close> held before (zeros here),
  with no data byte read; the data byte 7 is then decoded as the type of the next
  message.
\<close>

theorem transmit_gets_stale_bytes_at_size_255:
  "observed (feed_chunks example_header [12 # 0 # 255 # 7 # replicate 255 9] initial) =
     Inr ([False],
          [PushBuffer [0, 73, 79, 73, 79, 0, 1, 1], UARTTransmit 0 (replicate 256 0) 256],
          [12 # 0 # 255 # replicate 256 0, 7 # 0 # 255 # replicate 256 0])"
  by (simp add: observed_def run_defs ex_defs)

section \<open>The transmit pump\<close>

lemma ByteQueuePeek_prefix:
  "ByteQueuePeek q = take (length (ByteQueuePeek q)) (contents q)"
  by (simp add: ByteQueuePeek_def min_def)

text \<open>
  C8. A tick on which the channel is not ready calls \<open>UARTTasks\<close> and nothing else:
  queue and in-flight count are as before. A tick on which it is ready (with the
  in-flight count within the queue) first removes exactly the \<open>bytes_transmitted\<close> bytes
  issued before, then peeks the head; if the span is not empty it is written with one
  \<open>ADBWrite\<close> and its length is the new in-flight count, and the written bytes are still
  the head of the queue; otherwise nothing is written and the count is 0.
\<close>

theorem pump_one_write_in_flight:
  "AppProtocolTasks False s = Inr (call UARTTasks s) \<and>
   (bytes_transmitted s \<le> length (contents (tx_queue s)) \<longrightarrow>
     (\<exists>s'. AppProtocolTasks True s = Inr s' \<and>
        contents (tx_queue s') = drop (bytes_transmitted s) (contents (tx_queue s)) \<and>
        capacity (tx_queue s') = capacity (tx_queue s) \<and>
        read_cursor (tx_queue s') =
          (if bytes_transmitted s = 0 then read_cursor (tx_queue s)
           else (read_cursor (tx_queue s) + bytes_transmitted s) mod capacity (tx_queue s)) \<and>
        bytes_transmitted s' = length (ByteQueuePeek (tx_queue s')) \<and>
        ByteQueuePeek (tx_queue s') = take (bytes_transmitted s') (contents (tx_queue s')) \<and>
        new_calls s s' =
          UARTTasks # (if ByteQueuePeek (tx_queue s') = [] then []
                       else [ADBWrite (ByteQueuePeek (tx_queue s')) (bytes_transmitted s')])))"
proof (intro conjI impI)
  show "AppProtocolTasks False s = Inr (call UARTTasks s)"
    by (simp add: AppProtocolTasks_def)
next
  assume le: "bytes_transmitted s \<le> length (contents (tx_queue s))"
  show "\<exists>s'. AppProtocolTasks True s = Inr s' \<and>
        contents (tx_queue s') = drop (bytes_transmitted s) (contents (tx_queue s)) \<and>
        capacity (tx_queue s') = capacity (tx_queue s) \<and>
        read_cursor (tx_queue s') =
          (if bytes_transmitted s = 0 then read_cursor (tx_queue s)
           else (read_cursor (tx_queue s) + bytes_transmitted s) mod capacity (tx_queue s)) \<and>
        bytes_transmitted s' = length (ByteQueuePeek (tx_queue s')) \<and>
        ByteQueuePeek (tx_queue s') = take (bytes_transmitted s') (contents (tx_queue s')) \<and>
        new_calls s s' =
          UARTTasks # (if ByteQueuePeek (tx_queue s') = [] then []
                       else [ADBWrite (ByteQueuePeek (tx_queue s')) (bytes_transmitted s')])"
  proof (cases "bytes_transmitted s = 0")
    case True
    then show ?thesis
      using ByteQueuePeek_prefix [of "tx_queue s"]
      by (auto simp: AppProtocolTasks_def Let_def call_def new_calls_def)
  next
    case False
    let ?q = "(tx_queue s)\<lparr>read_cursor := (read_cursor (tx_queue s) + bytes_transmitted s)
                  mod capacity (tx_queue s),
                contents := drop (bytes_transmitted s) (contents (tx_queue s))\<rparr>"
    from False le show ?thesis
      using ByteQueuePeek_prefix [of ?q]
      by (auto simp: AppProtocolTasks_def ByteQueuePull_def Let_def call_def new_calls_def)
  qed
qed

theorem pump_one_write_in_flight_witness:
  "\<exists>s1 s2. AppProtocolTasks True initial = Inr s1 \<and>
     contents (tx_queue s1) = [0, 73, 79, 73, 79, 0, 1, 1] \<and> bytes_transmitted s1 = 8 \<and>
     new_calls initial s1 = [UARTTasks, ADBWrite [0, 73, 79, 73, 79, 0, 1, 1] 8] \<and>
     AppProtocolTasks False s1 = Inr (call UARTTasks s1) \<and>
     AppProtocolTasks True s1 = Inr s2 \<and>
     contents (tx_queue s2) = [] \<and> bytes_transmitted s2 = 0 \<and>
     new_calls s1 s2 = [UARTTasks]"
proof -
  have "bytes_transmitted initial \<le> length (contents (tx_queue initial))"
    by (simp add: initial_def)
  with pump_one_write_in_flight [of initial] obtain s1 where
    t1: "AppProtocolTasks True initial = Inr s1" and
    c1: "contents (tx_queue s1) = drop (bytes_transmitted initial) (contents (tx_queue initial))"
      "capacity (tx_queue s1) = capacity (tx_queue initial)"
      "read_cursor (tx_queue s1) =
          (if bytes_transmitted initial = 0 then read_cursor (tx_queue initial)
           else (read_cursor (tx_queue initial) + bytes_transmitted initial)
                  mod capacity (tx_queue initial))" and
    b1: "bytes_transmitted s1 = length (ByteQueuePeek (tx_queue s1))" and
    n1: "new_calls initial s1 =
          UARTTasks # (if ByteQueuePeek (tx_queue s1) = [] then []
                       else [ADBWrite (ByteQueuePeek (tx_queue s1)) (bytes_transmitted s1)])"
    by blast
  from c1 have q1: "contents (tx_queue s1) = [0, 73, 79, 73, 79, 0, 1, 1]"
    "capacity (tx_queue s1) = 1024" "read_cursor (tx_queue s1) = 0"
    by (simp_all add: initial_def)
  then have p1: "ByteQueuePeek (tx_queue s1) = [0, 73, 79, 73, 79, 0, 1, 1]"
    by (simp add: ByteQueuePeek_def)
  with b1 n1 have f1: "bytes_transmitted s1 = 8"
    "new_calls initial s1 = [UARTTasks, ADBWrite [0, 73, 79, 73, 79, 0, 1, 1] 8]"
    by simp_all
  from pump_one_write_in_flight [of s1]
  have idle: "AppProtocolTasks False s1 = Inr (call UARTTasks s1)"
    by blast
  have "bytes_transmitted s1 \<le> length (contents (tx_queue s1))"
    using f1 q1 by simp
  with pump_one_write_in_flight [of s1] obtain s2 where
    t2: "AppProtocolTasks True s1 = Inr s2" and
    c2: "contents (tx_queue s2) = drop (bytes_transmitted s1) (contents (tx_queue s1))" and
    b2: "bytes_transmitted s2 = length (ByteQueuePeek (tx_queue s2))" and
    n2: "new_calls s1 s2 =
          UARTTasks # (if ByteQueuePeek (tx_queue s2) = [] then []
                       else [ADBWrite (ByteQueuePeek (tx_queue s2)) (bytes_transmitted s2)])"
    by blast
  from c2 f1 q1 have q2: "contents (tx_queue s2) = []"
    by simp
  then have "ByteQueuePeek (tx_queue s2) = []"
    by (simp add: ByteQueuePeek_def)
  with b2 n2 have "bytes_transmitted s2 = 0" "new_calls s1 s2 = [UARTTasks]"
    by simp_all
  with t1 q1 f1 idle t2 q2 show ?thesis by blast
qed

end
